theory Spec2Isabelle
  imports Complex_Main
begin

section \<open>The poll loop and its backoff (services/gmailPoller.js)\<close>

text \<open>
  The poller keeps two module-level variables that matter for the delay between cycles:
  \<^verbatim>\<open>isPolling\<close> and \<^verbatim>\<open>backoffMs\<close> (initially 2000). What a cycle meets in the
  outside world (the IMAP connect and the scan) is the input \<open>cycle_outcome\<close>.
\<close>

datatype cycle_outcome = CycleOk | ConnectFails | ScanFails

record poller_state =
  isPolling :: bool
  backoffMs :: nat

datatype completion = Returned | Thrown

definition POLL_INTERVAL :: nat where
  "POLL_INTERVAL = 20000"

text \<open>
  The body of the \<^verbatim>\<open>try\<close> block of \<^verbatim>\<open>pollGmail\<close>: connect, scan, and on success reset
  the backoff. A failure of either step leaves the block by an exception.
\<close>

definition pollGmail_try :: "cycle_outcome \<Rightarrow> poller_state \<Rightarrow> completion \<times> poller_state" where
  "pollGmail_try oc s =
     (case oc of
        ConnectFails \<Rightarrow> (Thrown, s)
      | ScanFails \<Rightarrow> (Thrown, s)
      | CycleOk \<Rightarrow> (Returned, s\<lparr>backoffMs := 2000\<rparr>))"

text \<open>
  \<^verbatim>\<open>pollGmail\<close>: skip when a cycle is in flight; otherwise run the \<^verbatim>\<open>try\<close> block, and in
  \<^verbatim>\<open>catch (err)\<close> double the backoff (capped at 60000). The \<^verbatim>\<open>catch\<close> does not rethrow and
  the \<^verbatim>\<open>finally\<close> block wraps its own logout in a \<^verbatim>\<open>try\<close>, so the function always returns.
\<close>

definition pollGmail :: "cycle_outcome \<Rightarrow> poller_state \<Rightarrow> completion \<times> poller_state" where
  "pollGmail oc s =
     (if isPolling s then (Returned, s)
      else
        (let s1 = s\<lparr>isPolling := True\<rparr>;
             (c, s2) = pollGmail_try oc s1;
             s3 = (case c of
                     Returned \<Rightarrow> s2
                   | Thrown \<Rightarrow> s2\<lparr>backoffMs := min (backoffMs s2 * 2) 60000\<rparr>)
         in (Returned, s3\<lparr>isPolling := False\<rparr>)))"

text \<open>
  One iteration of the \<^verbatim>\<open>while\<close> loop of \<^verbatim>\<open>pollLoop\<close>. The result is the delay slept
  before the next iteration and the state after it.
\<close>

definition pollLoop_iter :: "cycle_outcome \<Rightarrow> poller_state \<Rightarrow> nat \<times> poller_state" where
  "pollLoop_iter oc s =
     (case pollGmail oc s of
        (Returned, s1) \<Rightarrow> (POLL_INTERVAL, s1\<lparr>backoffMs := 2000\<rparr>)
      | (Thrown, s1) \<Rightarrow> (backoffMs s1, s1\<lparr>backoffMs := min (backoffMs s1 * 2) 60000\<rparr>))"

text \<open>
  The loop over the cycles that happen before the stop flag is seen: the delays slept
  after each of them, in order, and the final state. (The loop first sleeps 2000 ms once.)
\<close>

fun pollLoop :: "cycle_outcome list \<Rightarrow> poller_state \<Rightarrow> nat list \<times> poller_state" where
  "pollLoop [] s = ([], s)"
| "pollLoop (oc # ocs) s =
     (let (d, s1) = pollLoop_iter oc s;
          (ds, s2) = pollLoop ocs s1
      in (d # ds, s2))"

section \<open>Strings (utils/paymentValidator.js)\<close>

text \<open>
  JavaScript strings are modelled as lists of 8-bit characters, read as the code units
  U+0000 to U+00FF (Latin-1). In that range the white space of \<^verbatim>\<open>\s\<close> and of
  \<^verbatim>\<open>trim()\<close> is TAB, LF, VT, FF, CR, SPACE and NBSP, the line terminators are LF and
  CR, and \<^verbatim>\<open>toLowerCase()\<close> maps A-Z and U+00C0-U+00DE (except the multiplication sign
  U+00D7) 32 places up.
\<close>

definition isWhiteSpace :: "char \<Rightarrow> bool" where
  "isWhiteSpace c =
     (c \<in> set [CHR 0x09, CHR 0x0A, CHR 0x0B, CHR 0x0C, CHR 0x0D, CHR 0x20, CHR 0xA0])"

definition isLineTerminator :: "char \<Rightarrow> bool" where
  "isLineTerminator c = (c = CHR 0x0A \<or> c = CHR 0x0D)"

definition toLowerChar :: "char \<Rightarrow> char" where
  "toLowerChar c =
     (let n = (of_char c :: nat)
      in if (65 \<le> n \<and> n \<le> 90) \<or> (192 \<le> n \<and> n \<le> 222 \<and> n \<noteq> 215)
         then char_of (n + 32) else c)"

definition toLowerCase :: "string \<Rightarrow> string" where
  "toLowerCase s = map toLowerChar s"

text \<open>
  \<^verbatim>\<open>.replace(/\s+/g, " ")\<close>: every maximal run of white space becomes one space. The
  flag says whether the previous character belonged to a run.
\<close>

fun collapse_ws :: "bool \<Rightarrow> string \<Rightarrow> string" where
  "collapse_ws inrun [] = []"
| "collapse_ws inrun (c # cs) =
     (if isWhiteSpace c
      then (if inrun then collapse_ws True cs else CHR '' '' # collapse_ws True cs)
      else c # collapse_ws False cs)"

definition trim :: "string \<Rightarrow> string" where
  "trim s = rev (dropWhile isWhiteSpace (rev (dropWhile isWhiteSpace s)))"

text \<open>\<^verbatim>\<open>normalizePhrase\<close>: the empty string is falsy and returns at the guard.\<close>

definition normalizePhrase :: "string \<Rightarrow> string" where
  "normalizePhrase text =
     (if text = [] then [] else trim (collapse_ws False (toLowerCase text)))"

text \<open>\<^verbatim>\<open>a || b\<close> on strings: the empty string is the only falsy string.\<close>

definition js_or :: "string \<Rightarrow> string \<Rightarrow> string" where
  "js_or a b = (if a \<noteq> [] then a else b)"

subsection \<open>The TOPUP line\<close>

text \<open>
  \<^verbatim>\<open>emailBody.match(/^\s*topup\s*:\s*(.+)\s*$/im)\<close>, written out. With the \<^verbatim>\<open>m\<close>
  flag \<^verbatim>\<open>^\<close> matches at the start of the input and after a line terminator, and
  \<^verbatim>\<open>$\<close> at its end and before a line terminator; \<^verbatim>\<open>\s\<close> also matches line
  terminators and \<^verbatim>\<open>.\<close> does not.

  \<open>topup_group r\<close> is capture group 1 when \<open>r\<close> is what follows the colon. The greedy
  \<^verbatim>\<open>\s*\<close> first takes all the white space; if a character is left, the group is the
  rest of that line. If only white space follows the colon, the engine gives white space
  back until the group can start: the group is then the last character that is not a line
  terminator, and there is no match when there is none.
\<close>

definition topup_group :: "string \<Rightarrow> string option" where
  "topup_group r =
     (let w = takeWhile isWhiteSpace r;
          rest = dropWhile isWhiteSpace r
      in if rest \<noteq> [] then Some (takeWhile (\<lambda>c. \<not> isLineTerminator c) rest)
         else (case dropWhile isLineTerminator (rev w) of
                 [] \<Rightarrow> None
               | c # _ \<Rightarrow> Some [c]))"

text \<open>An attempt of the pattern at one line start.\<close>

definition topup_match_here :: "string \<Rightarrow> string option" where
  "topup_match_here s =
     (let s1 = dropWhile isWhiteSpace s
      in if toLowerCase (take 5 s1) = ''topup''
         then (case dropWhile isWhiteSpace (drop 5 s1) of
                 [] \<Rightarrow> None
               | c # r \<Rightarrow> if c = CHR '':'' then topup_group r else None)
         else None)"

text \<open>The leftmost line start at which the pattern matches wins.\<close>

fun topup_regex_exec :: "bool \<Rightarrow> string \<Rightarrow> string option" where
  "topup_regex_exec atStart [] = None"
| "topup_regex_exec atStart (c # cs) =
     (case (if atStart then topup_match_here (c # cs) else None) of
        Some g \<Rightarrow> Some g
      | None \<Rightarrow> topup_regex_exec (isLineTerminator c) cs)"

text \<open>
  \<^verbatim>\<open>extractTopupLine\<close>: \<open>None\<close> is \<^verbatim>\<open>null\<close>. Group 1 of a match has at least one
  character, so \<^verbatim>\<open>match && match[1]\<close> holds whenever there is a match.
\<close>

definition extractTopupLine :: "string \<Rightarrow> string option" where
  "extractTopupLine emailBody =
     (if emailBody = [] then None
      else (case topup_regex_exec True emailBody of
              Some g \<Rightarrow> (if g \<noteq> [] then Some (normalizePhrase g) else None)
            | None \<Rightarrow> None))"

subsection \<open>The safe zones\<close>

text \<open>
  The parser's JSON object. \<open>None\<close> is a missing (\<^verbatim>\<open>undefined\<close>) or \<^verbatim>\<open>null\<close> field;
  the three text fields are strings, missing ones being the empty string that the
  destructuring defaults give them.
\<close>

record parserData =
  amount :: "string option"
  pay_type :: "string option"
  request_status :: string
  is_expired :: "bool option"
  receipt_memo :: string
  note_part :: string
  subject :: string

text \<open>The \<^verbatim>\<open>for\<close> loop over the candidates: the first whose normal form is not empty.\<close>

fun pick_candidate :: "(string \<times> string) list \<Rightarrow> string option \<times> string option" where
  "pick_candidate [] = (None, None)"
| "pick_candidate ((text, source) # cs) =
     (let normalized = normalizePhrase text
      in if normalized \<noteq> [] then (Some normalized, Some source) else pick_candidate cs)"

text \<open>\<^verbatim>\<open>extractPassphraseFromSafeZones\<close>: the pair is \<^verbatim>\<open>{ code, code_source }\<close>.\<close>

definition extractPassphraseFromSafeZones ::
    "parserData \<Rightarrow> string \<Rightarrow> string \<Rightarrow> string option \<times> string option" where
  "extractPassphraseFromSafeZones pd emailBody emailSubject =
     (case extractTopupLine (js_or emailBody []) of
        Some (c # cs) \<Rightarrow> (Some (c # cs), Some ''topup_line'')
      | _ \<Rightarrow>
          pick_candidate
            [(note_part pd, ''note_part''),
             (receipt_memo pd, ''receipt_memo''),
             (js_or emailSubject (subject pd), ''subject'')])"

text \<open>
  The priority order as the specification words it, for comparison: as the code, except
  that the fourth zone is \<^verbatim>\<open>facts.subject\<close>, and the email's own subject header only
  when the extractor supplied no subject.
\<close>

definition spec_extractPassphrase ::
    "parserData \<Rightarrow> string \<Rightarrow> string \<Rightarrow> string option \<times> string option" where
  "spec_extractPassphrase pd emailBody emailSubject =
     (case extractTopupLine emailBody of
        Some (c # cs) \<Rightarrow> (Some (c # cs), Some ''topup_line'')
      | _ \<Rightarrow>
          pick_candidate
            [(note_part pd, ''note_part''),
             (receipt_memo pd, ''receipt_memo''),
             (js_or (subject pd) emailSubject, ''subject'')])"


section \<open>Numbers and dates of the JavaScript runtime\<close>

text \<open>
  A JavaScript number is \<^verbatim>\<open>NaN\<close>, an infinity or a finite double, and every finite double
  is a rational number (the two zeros are not told apart: they compare and floor alike).
  The numbers stored in the database, doubles or 64-bit integers, are values of the same
  type.
\<close>

datatype jsnum = NaN | Fin rat | PosInf | NegInf

definition isNaN :: "jsnum \<Rightarrow> bool" where
  "isNaN x = (x = NaN)"

text \<open>\<^verbatim>\<open>x <= 0\<close> and \<^verbatim>\<open>Math.floor(x)\<close>.\<close>

fun js_le_zero :: "jsnum \<Rightarrow> bool" where
  "js_le_zero NaN = False"
| "js_le_zero (Fin q) = (q \<le> 0)"
| "js_le_zero PosInf = False"
| "js_le_zero NegInf = True"

fun Math_floor :: "jsnum \<Rightarrow> jsnum" where
  "Math_floor (Fin q) = Fin (of_int \<lfloor>q\<rfloor>)"
| "Math_floor x = x"

subsection \<open>Rounding to a double\<close>

text \<open>
  The number of binary digits of a positive integer, and the powers of two.
\<close>

function bit_length :: "int \<Rightarrow> int" where
  "bit_length n = (if n \<le> 0 then 0 else 1 + bit_length (n div 2))"
  by pat_completeness auto
termination
  by (relation "measure nat") auto

declare bit_length.simps [simp del]

definition pow2 :: "int \<Rightarrow> rat" where
  "pow2 e = (if e < 0 then 1 / 2 ^ nat (- e) else 2 ^ nat e)"

text \<open>
  \<open>floor_log2 x\<close> is the exponent \<open>l\<close> with \<open>2^l \<le> x < 2^(l+1)\<close>, for \<open>x > 0\<close>: the
  difference of the bit lengths of numerator and denominator, or one less.
\<close>

definition floor_log2 :: "rat \<Rightarrow> int" where
  "floor_log2 x =
     (let (p, q) = quotient_of x;
          d = bit_length p - bit_length q
      in if pow2 d \<le> x then d else d - 1)"

definition round_half_even :: "rat \<Rightarrow> int" where
  "round_half_even y =
     (let f = \<lfloor>y\<rfloor>; r = y - of_int f
      in if r < 1 / 2 then f
         else if 1 / 2 < r then f + 1
         else if f mod 2 = 0 then f else f + 1)"

text \<open>
  The double nearest to a rational number, ties going to the even significand (IEEE 754
  binary64: 53 significant bits, the unit in the last place of a value in
  \<open>[2^l, 2^(l+1))\<close> is \<open>2^(l-52)\<close> and never less than \<open>2^-1074\<close>, and what rounds to
  \<open>2^1024\<close> or beyond is infinite). This is the value a decimal literal denotes and the
  result of every arithmetic operation on doubles.
\<close>

definition to_double_pos :: "rat \<Rightarrow> jsnum" where
  "to_double_pos x =
     (let l = floor_log2 x
      in if 1024 \<le> l then PosInf
         else (let e = max (l - 52) (- 1074);
                   m = round_half_even (x / pow2 e)
               in if e = 971 \<and> m = 9007199254740992 then PosInf
                  else Fin (of_int m * pow2 e)))"

definition to_double :: "rat \<Rightarrow> jsnum" where
  "to_double x =
     (if x = 0 then Fin 0
      else if x < 0 then (case to_double_pos (- x) of Fin v \<Rightarrow> Fin (- v) | _ \<Rightarrow> NegInf)
      else to_double_pos x)"

text \<open>
  \<^verbatim>\<open>balance_coins + ?\<close> in SQL. The driver binds a JavaScript number as a double, so
  SQLite adds in floating point: it converts the stored number to a double
  (\<open>as_double\<close>; a stored integer beyond 2^53 is rounded there), and the sum is the
  double nearest to the exact sum (\<open>double_add\<close>). Sums of integers below 2^53 are
  exact; beyond that the stored sum differs from the exact one.
\<close>

fun as_double :: "jsnum \<Rightarrow> jsnum" where
  "as_double (Fin q) = to_double q"
| "as_double x = x"

fun double_add :: "jsnum \<Rightarrow> jsnum \<Rightarrow> jsnum" where
  "double_add (Fin a) (Fin b) = to_double (a + b)"
| "double_add NaN _ = NaN"
| "double_add _ NaN = NaN"
| "double_add PosInf NegInf = NaN"
| "double_add NegInf PosInf = NaN"
| "double_add PosInf _ = PosInf"
| "double_add _ PosInf = PosInf"
| "double_add NegInf _ = NegInf"
| "double_add _ NegInf = NegInf"

definition js_add :: "jsnum \<Rightarrow> jsnum \<Rightarrow> jsnum" where
  "js_add x y = double_add (as_double x) (as_double y)"

subsection \<open>Printing numbers\<close>

definition digit_char :: "nat \<Rightarrow> char" where
  "digit_char d = char_of (48 + d)"

fun show_nat :: "nat \<Rightarrow> string" where
  "show_nat n = (if n < 10 then [digit_char n] else show_nat (n div 10) @ [digit_char (n mod 10)])"

declare show_nat.simps [simp del]

definition show_int :: "int \<Rightarrow> string" where
  "show_int i = (if i < 0 then CHR ''-'' # show_nat (nat (- i)) else show_nat (nat i))"

text \<open>The decimal digits of an integer \<open>i \<ge> 0\<close>, computed on the integers.\<close>

function show_digits :: "int \<Rightarrow> string" where
  "show_digits i =
     (if i < 10 then [digit_char (nat i)]
      else show_digits (i div 10) @ [digit_char (nat (i mod 10))])"
  by pat_completeness auto
termination
  by (relation "measure nat") auto

declare show_digits.simps [simp del]

text \<open>The digits of a fraction \<open>0 \<le> q < 1\<close>, at most \<open>k\<close> of them.\<close>

fun frac_digits :: "nat \<Rightarrow> rat \<Rightarrow> string" where
  "frac_digits 0 q = []"
| "frac_digits (Suc k) q =
     (if q = 0 then []
      else (let d = nat \<lfloor>q * 10\<rfloor> in digit_char d # frac_digits k (q * 10 - of_nat d)))"

text \<open>
  \<^verbatim>\<open>String(x)\<close> of a number, as template literals apply it. It is exact for \<^verbatim>\<open>NaN\<close>,
  the infinities and the integers below 10^21, which is what the floored coin amounts are;
  other values (JavaScript prints the shortest digits that read back as the same double,
  and an exponent from 10^21 on) are printed digit by digit.
\<close>

fun numberToString :: "jsnum \<Rightarrow> string" where
  "numberToString NaN = ''NaN''"
| "numberToString PosInf = ''Infinity''"
| "numberToString NegInf = ''-Infinity''"
| "numberToString (Fin q) =
     (let a = \<bar>q\<bar>; i = \<lfloor>a\<rfloor>; f = a - of_int i
      in (if q < 0 then ''-'' else []) @ show_digits i
         @ (if f = 0 then [] else CHR ''.'' # frac_digits 17 f))"

subsection \<open>Printing dates\<close>

text \<open>
  An instant is the number of milliseconds since the epoch, the value of a \<^verbatim>\<open>Date\<close>.
  \<^verbatim>\<open>toISOString()\<close> prints it in UTC; the calendar date comes from the day number by
  the usual era computation (400-year cycles of 146097 days, years starting in March).
\<close>

definition pad :: "nat \<Rightarrow> nat \<Rightarrow> string" where
  "pad w n = replicate (w - length (show_nat n)) CHR ''0'' @ show_nat n"

definition civil_from_days :: "int \<Rightarrow> int \<times> nat \<times> nat" where
  "civil_from_days days =
     (let z = days + 719468;
          era = z div 146097;
          doe = z - era * 146097;
          yoe = (doe - doe div 1460 + doe div 36524 - doe div 146096) div 365;
          doy = doe - (365 * yoe + yoe div 4 - yoe div 100);
          mp = (5 * doy + 2) div 153;
          d = doy - (153 * mp + 2) div 5 + 1;
          m = (if mp < 10 then mp + 3 else mp - 9);
          y = yoe + era * 400 + (if m \<le> 2 then 1 else 0)
      in (y, nat m, nat d))"

definition toISOString :: "int \<Rightarrow> string" where
  "toISOString ms =
     (let (y, m, d) = civil_from_days (ms div 86400000);
          t = nat (ms mod 86400000);
          year = (if 0 \<le> y \<and> y \<le> 9999 then pad 4 (nat y)
                  else (if y < 0 then ''-'' else ''+'') @ pad 6 (nat \<bar>y\<bar>))
      in year @ ''-'' @ pad 2 m @ ''-'' @ pad 2 d @ ''T''
         @ pad 2 (t div 3600000) @ '':'' @ pad 2 (t div 60000 mod 60) @ '':''
         @ pad 2 (t div 1000 mod 60) @ ''.'' @ pad 3 (t mod 1000) @ ''Z'')"

subsection \<open>Reading numbers\<close>

text \<open>
  \<^verbatim>\<open>parseFloat\<close> is a parameter of the functions that call it: any function from strings
  to numbers. The instance below is used for concrete inputs. It reads the longest prefix
  that is a decimal literal (after leading white space: a sign, then \<^verbatim>\<open>Infinity\<close> or
  digits with an optional fraction and exponent) and returns the double nearest to its
  value.
\<close>

definition isDigit :: "char \<Rightarrow> bool" where
  "isDigit c = (let n = (of_char c :: nat) in 48 \<le> n \<and> n \<le> 57)"

definition digits_value :: "string \<Rightarrow> int" where
  "digits_value ds = foldl (\<lambda>acc c. acc * 10 + (of_char c - 48)) 0 ds"

definition exponent_part :: "string \<Rightarrow> int" where
  "exponent_part r =
     (case r of
        [] \<Rightarrow> 0
      | c # r1 \<Rightarrow>
          if c = CHR ''e'' \<or> c = CHR ''E''
          then (let (neg, r2) = (case r1 of
                                   [] \<Rightarrow> (False, [])
                                 | s # r3 \<Rightarrow> if s = CHR ''-'' then (True, r3)
                                            else if s = CHR ''+'' then (False, r3)
                                            else (False, s # r3));
                    ds = takeWhile isDigit r2
                in if ds = [] then 0
                   else if neg then - digits_value ds else digits_value ds)
          else 0)"

definition parseFloat_decimal :: "string \<Rightarrow> jsnum" where
  "parseFloat_decimal s =
     (let t = dropWhile isWhiteSpace s;
          (neg, u) = (case t of
                        [] \<Rightarrow> (False, [])
                      | c # r \<Rightarrow> if c = CHR ''-'' then (True, r)
                                 else if c = CHR ''+'' then (False, r)
                                 else (False, c # r))
      in if take 8 u = ''Infinity'' then (if neg then NegInf else PosInf)
         else
           (let ip = takeWhile isDigit u;
                r1 = dropWhile isDigit u;
                (fp, r2) = (case r1 of
                              [] \<Rightarrow> ([], [])
                            | c # r \<Rightarrow> if c = CHR ''.''
                                       then (takeWhile isDigit r, dropWhile isDigit r)
                                       else ([], c # r))
            in if ip = [] \<and> fp = [] then NaN
               else
                 (let e = exponent_part r2 - int (length fp);
                      m = (of_int (digits_value (ip @ fp)) :: rat);
                      v = (if e < 0 then m / 10 ^ nat (- e) else m * 10 ^ nat e)
                  in to_double (if neg then - v else v))))"


section \<open>The database\<close>

text \<open>
  The database is the SQLite database of db.js, whose calls return when the statement has
  run.

  A row of \<^verbatim>\<open>payment_logs\<close>, which is also the object handed to \<^verbatim>\<open>logPayment\<close>
  (\<open>None\<close> is \<^verbatim>\<open>null\<close>). The column \<^verbatim>\<open>full_email_data\<close>, a JSON dump of an
  exception with its stack trace, is left out.
\<close>

record log_entry =
  email_uid :: "string option"
  parser_pay_type :: "string option"
  parser_amount :: "string option"
  parser_request_status :: "string option"
  parser_is_expired :: "bool option"
  extracted_code :: "string option"
  matched_topup_id :: "nat option"
  decision :: string
  reason :: "string option"
  raw_subject :: "string option"
  short_body_preview :: "string option"

text \<open>
  Rows of \<^verbatim>\<open>topups\<close> and \<^verbatim>\<open>users\<close>. The two timestamps are instants in
  milliseconds (the columns hold their ISO text). \<^verbatim>\<open>status\<close> is the text column.
\<close>

record topup =
  topup_id :: nat
  userId :: nat
  code :: string
  status :: string
  expiresAt :: int
  createdAt :: int
  amount_coins :: "jsnum option"
  armed_uidnext :: "int option"

record user =
  user_id :: nat
  balance_coins :: jsnum

text \<open>
  The tables the payment engine touches, and the setting \<^verbatim>\<open>gmail_start_uid\<close> of
  \<^verbatim>\<open>app_settings\<close>. \<open>logPayment_calls\<close> is a history variable, not a table: every
  object passed to \<^verbatim>\<open>logPayment\<close>, in order, whether or not a row was stored.
\<close>

record database =
  topups :: "topup list"
  users :: "user list"
  payment_logs :: "log_entry list"
  mail_markers :: "string list"
  gmail_start_uid :: "string option"
  logPayment_calls :: "log_entry list"

text \<open>
  \<^verbatim>\<open>logPayment\<close> (utils/paymentLogger.js). An entry without a decision is dropped. The
  insert violates the unique index on \<^verbatim>\<open>email_uid\<close> when a row with the same non-null
  \<^verbatim>\<open>email_uid\<close> exists; the function catches that error and returns. The preview is
  cut to 200 characters, and an empty preview is stored as \<^verbatim>\<open>null\<close>.
\<close>

definition stored_preview :: "string option \<Rightarrow> string option" where
  "stored_preview p =
     (case p of None \<Rightarrow> None | Some t \<Rightarrow> if t = [] then None else Some (take 200 t))"

definition logPayment :: "log_entry \<Rightarrow> database \<Rightarrow> database" where
  "logPayment logData db =
     (let db1 = db\<lparr>logPayment_calls := logPayment_calls db @ [logData]\<rparr>
      in if decision logData = [] then db1
         else if email_uid logData \<noteq> None
                 \<and> email_uid logData \<in> set (map email_uid (payment_logs db)) then db1
         else db1\<lparr>payment_logs := payment_logs db
                      @ [logData\<lparr>short_body_preview := stored_preview (short_body_preview logData)\<rparr>]\<rparr>)"

section \<open>The payment validator (utils/paymentValidator.js)\<close>

text \<open>
  The returned object. On the failing paths \<^verbatim>\<open>codeCandidate\<close> and \<^verbatim>\<open>code_source\<close> are
  \<^verbatim>\<open>null\<close> and there is no \<^verbatim>\<open>amount\<close>.
\<close>

record validation =
  valid :: bool
  v_reason :: string
  v_amount :: "jsnum option"
  v_codeCandidate :: "string option"
  v_code_source :: "string option"

text \<open>The double quote character, for the quotes inside messages.\<close>

definition dq :: string where
  "dq = [CHR 0x22]"

text \<open>
  A missing value inside a template literal prints as \<^verbatim>\<open>undefined\<close>. \<open>None\<close> stands
  for an absent field and for \<^verbatim>\<open>null\<close>, which take the same branches everywhere; they
  differ only in this text, where \<^verbatim>\<open>null\<close> prints as \<^verbatim>\<open>null\<close>.
\<close>

definition show_opt :: "string option \<Rightarrow> string" where
  "show_opt x = (case x of None \<Rightarrow> ''undefined'' | Some t \<Rightarrow> t)"

definition rejected :: "string \<Rightarrow> validation" where
  "rejected r =
     \<lparr>valid = False, v_reason = r, v_amount = None, v_codeCandidate = None,
      v_code_source = None\<rparr>"

text \<open>
  \<^verbatim>\<open>validatePayment\<close>. \<open>logData\<close> is built before the rules with decision
  \<^verbatim>\<open>IGNORED\<close>; rules 1 to 4 overwrite the decision with \<^verbatim>\<open>REJECTED\<close>, rule 5 leaves
  it, and the success path returns without calling \<^verbatim>\<open>logPayment\<close>.
\<close>

definition validatePayment ::
    "(string \<Rightarrow> jsnum) \<Rightarrow> parserData \<Rightarrow> string \<Rightarrow> string \<Rightarrow> string \<Rightarrow> database
       \<Rightarrow> validation \<times> database" where
  "validatePayment parseFloat pd emailBody emailSubject emailUid db =
     (let (codeCandidate, code_source) =
            extractPassphraseFromSafeZones pd (js_or emailBody []) (js_or emailSubject []);
          logData =
            \<lparr>email_uid = Some emailUid,
             parser_pay_type = pay_type pd,
             parser_amount = amount pd,
             parser_request_status = Some (request_status pd),
             parser_is_expired = is_expired pd,
             extracted_code = codeCandidate,
             matched_topup_id = None,
             decision = ''IGNORED'',
             reason = None,
             raw_subject = Some (js_or emailSubject (subject pd)),
             short_body_preview =
               Some (take 200 (js_or (receipt_memo pd)
                                (js_or (note_part pd) (js_or emailSubject (subject pd)))))\<rparr>;
          reject = (\<lambda>d r. (rejected r, logPayment (logData\<lparr>decision := d, reason := Some r\<rparr>) db))
      in if pay_type pd \<noteq> Some ''sent'' then
           reject ''REJECTED''
             (''Invalid pay_type: '' @ show_opt (pay_type pd)
                @ '' (only '' @ dq @ ''sent'' @ dq @ '' payments accepted)'')
         else if amount pd = None \<or> amount pd = Some [] \<or> trim (the (amount pd)) = [] then
           reject ''REJECTED'' ''Amount missing or empty''
         else
           (let amountNum = parseFloat (the (amount pd))
            in if isNaN amountNum \<or> js_le_zero amountNum then
                 reject ''REJECTED''
                   (''Invalid amount: '' @ the (amount pd) @ '' (must be > 0)'')
               else if request_status pd \<noteq> [] \<and> request_status pd \<noteq> ''active'' then
                 reject ''REJECTED'' (''Invalid request_status: '' @ request_status pd)
               else if is_expired pd = Some True then
                 reject ''REJECTED'' ''Payment marked as expired by parser''
               else if codeCandidate = None \<or> codeCandidate = Some [] then
                 reject ''IGNORED''
                   ''No passphrase found in safe zones (receipt_memo, note_part, subject, TOPUP line)''
               else
                 (\<lparr>valid = True,
                   v_reason = ''Basic validation passed - passphrase extracted from ''
                                @ show_opt code_source,
                   v_amount = Some amountNum,
                   v_codeCandidate = codeCandidate,
                   v_code_source = code_source\<rparr>, db)))"

text \<open>
  Rules 1 to 4 in the words of the specification: the type is exactly "sent", the amount is
  present, not blank and parses as a positive number, the request status is empty or
  "active", and the expiry flag is not true.
\<close>

definition rules_1_to_4 :: "(string \<Rightarrow> jsnum) \<Rightarrow> parserData \<Rightarrow> bool" where
  "rules_1_to_4 parseFloat pd =
     (pay_type pd = Some ''sent''
      \<and> (case amount pd of
            None \<Rightarrow> False
          | Some a \<Rightarrow> trim a \<noteq> [] \<and> \<not> isNaN (parseFloat a) \<and> \<not> js_le_zero (parseFloat a))
      \<and> (request_status pd = [] \<or> request_status pd = ''active'')
      \<and> is_expired pd \<noteq> Some True)"


section \<open>The topup confirmer (utils/topupConfirmer.js)\<close>

text \<open>
  The clock is an input: the four instants (in milliseconds) at which one call of
  \<^verbatim>\<open>confirmTopupFromEmail\<close> reads the time: \<^verbatim>\<open>new Date()\<close> in
  \<^verbatim>\<open>getActiveTopups\<close>, \<^verbatim>\<open>new Date()\<close> before the checks, and \<^verbatim>\<open>datetime('now')\<close>
  in the re-read and in the update of the transaction. SQLite's \<^verbatim>\<open>datetime()\<close> keeps
  whole seconds, on both sides of its comparisons.
\<close>

record clock =
  now_active :: int
  now_check :: int
  now_select :: int
  now_update :: int

definition sql_datetime :: "int \<Rightarrow> int" where
  "sql_datetime ms = ms div 1000"

text \<open>\<^verbatim>\<open>WHERE status = 'PENDING' AND datetime(expiresAt) > datetime(?)\<close>\<close>

definition pending_unexpired :: "int \<Rightarrow> topup \<Rightarrow> bool" where
  "pending_unexpired now t =
     (status t = ''PENDING'' \<and> sql_datetime (expiresAt t) > sql_datetime now)"

text \<open>
  \<^verbatim>\<open>getActiveTopups\<close>, newest first (rows created at the same instant keep their table
  order).
\<close>

definition getActiveTopups :: "database \<Rightarrow> int \<Rightarrow> topup list" where
  "getActiveTopups db now =
     sort_key (\<lambda>t. - createdAt t) (filter (pending_unexpired now) (topups db))"

record match_result =
  m_topup :: "topup option"
  m_reason :: string
  matchedPhrase :: "string option"

definition no_match :: "string \<Rightarrow> match_result" where
  "no_match r = \<lparr>m_topup = None, m_reason = r, matchedPhrase = None\<rparr>"

definition quoted :: "string \<Rightarrow> string" where
  "quoted t = dq @ t @ dq"

text \<open>\<^verbatim>\<open>Array.prototype.join\<close> and \<^verbatim>\<open>String.prototype.includes\<close>.\<close>

fun join :: "string \<Rightarrow> string list \<Rightarrow> string" where
  "join sep [] = []"
| "join sep [x] = x"
| "join sep (x # y # ys) = x @ sep @ join sep (y # ys)"

fun js_includes :: "string \<Rightarrow> string \<Rightarrow> bool" where
  "js_includes [] pat = (pat = [])"
| "js_includes (c # cs) pat = (take (length pat) (c # cs) = pat \<or> js_includes cs pat)"

text \<open>\<^verbatim>\<open>findMatchingTopupByPhrase\<close>; the candidate is \<^verbatim>\<open>null\<close> or a string.\<close>

definition findMatchingTopupByPhrase :: "database \<Rightarrow> int \<Rightarrow> string option \<Rightarrow> match_result" where
  "findMatchingTopupByPhrase db now codeCandidate =
     (if codeCandidate = None \<or> codeCandidate = Some [] then
        no_match ''No code candidate provided''
      else
        (let normalizedCandidate = normalizePhrase (the codeCandidate)
         in if normalizedCandidate = [] then
              no_match ''Code candidate is empty after normalization''
            else
              (let activeTopups = getActiveTopups db now
               in if activeTopups = [] then
                    no_match ''No active PENDING topups found in database''
                  else
                    (let matches =
                           filter (\<lambda>t. normalizedCandidate = normalizePhrase (code t))
                             activeTopups
                     in case matches of
                          [] \<Rightarrow>
                            no_match
                              (''No active topup phrase matches candidate ''
                                 @ quoted normalizedCandidate @ '' (checked ''
                                 @ show_nat (length activeTopups) @ '' active topup(s))'')
                        | [m] \<Rightarrow>
                            \<lparr>m_topup = Some m,
                             m_reason = ''Exact phrase match found: '' @ quoted (code m),
                             matchedPhrase = Some (code m)\<rparr>
                        | _ \<Rightarrow>
                            no_match
                              (''Multiple active topup phrases match candidate: ''
                                 @ join '', '' (map (\<lambda>m. quoted (code m)) matches)
                                 @ '' ('' @ show_nat (length matches) @ '' matches)'')))))"

subsection \<open>The transaction\<close>

text \<open>
  \<^verbatim>\<open>WHERE id = ? AND status = 'PENDING' AND datetime(expiresAt) > datetime('now')\<close>
\<close>

definition tx_guard :: "int \<Rightarrow> nat \<Rightarrow> topup \<Rightarrow> bool" where
  "tx_guard now i t = (topup_id t = i \<and> pending_unexpired now t)"

definition show_amount :: "jsnum option \<Rightarrow> string" where
  "show_amount a = (case a of None \<Rightarrow> ''null'' | Some x \<Rightarrow> numberToString x)"

text \<open>
  The function passed to \<^verbatim>\<open>db.transaction\<close>. \<open>Inl\<close> is the message of the error it
  throws, \<open>Inr\<close> the database it leaves. \<^verbatim>\<open>.get\<close> returns the first row of a query,
  and \<^verbatim>\<open>changes\<close> is the number of rows an update matched.
\<close>

definition credit_transaction :: "clock \<Rightarrow> topup \<Rightarrow> jsnum \<Rightarrow> database \<Rightarrow> string + database" where
  "credit_transaction clk tp coins db =
     (case find (tx_guard (now_select clk) (topup_id tp)) (topups db) of
        None \<Rightarrow> Inl ''TopUp not found, expired, or already processed''
      | Some currentTopup \<Rightarrow>
          (let g = tx_guard (now_update clk) (topup_id tp);
               changes = length (filter g (topups db));
               db1 = db\<lparr>topups :=
                          map (\<lambda>t. if g t
                                    then t\<lparr>status := ''CONFIRMED'', amount_coins := Some coins\<rparr>
                                    else t) (topups db)\<rparr>
           in if changes \<noteq> 1 then
                (case find (\<lambda>t. topup_id t = topup_id tp) (topups db1) of
                   None \<Rightarrow> Inl ''TopUp update failed (may have been confirmed or expired)''
                 | Some checkTopup \<Rightarrow>
                     if status checkTopup = ''CONFIRMED'' then
                       Inl (''TopUp already confirmed (amount: ''
                              @ show_amount (amount_coins checkTopup)
                              @ '' coins) - preventing double-credit'')
                     else Inl ''TopUp update failed (may have been confirmed or expired)'')
              else
                (let ug = (\<lambda>u. user_id u = userId tp);
                     balanceChanges = length (filter ug (users db1));
                     db2 = db1\<lparr>users :=
                                 map (\<lambda>u. if ug u
                                           then u\<lparr>balance_coins := js_add (balance_coins u) coins\<rparr>
                                           else u) (users db1)\<rparr>
                 in if balanceChanges \<noteq> 1 then
                      Inl (''Failed to update user balance for user '' @ show_nat (userId tp))
                    else Inr db2)))"

subsection \<open>\<^verbatim>\<open>confirmTopupFromEmail\<close>\<close>

text \<open>
  The argument object and the returned object. \<^verbatim>\<open>emailDate\<close> is \<open>None\<close> for a missing
  date or the text "Unknown", and otherwise the instant of a valid date (the poller passes
  nothing else).
\<close>

record confirm_params =
  codeCandidate :: "string option"
  code_source :: string
  amountString :: "string option"
  p_email_uid :: string
  p_subject :: string
  bodyPreview :: string
  emailDate :: "int option"

record confirmation =
  success :: bool
  c_reason :: string
  topupId :: "nat option"
  c_userId :: "nat option"
  coins :: "jsnum option"
  c_extracted_code :: "string option"

definition failure :: "string \<Rightarrow> confirmation" where
  "failure r =
     \<lparr>success = False, c_reason = r, topupId = None, c_userId = None, coins = None,
      c_extracted_code = None\<rparr>"

text \<open>The object the confirmer hands to \<^verbatim>\<open>logPayment\<close>; the other fields default to null.\<close>

definition confirmer_log ::
    "confirm_params \<Rightarrow> string option \<Rightarrow> nat option \<Rightarrow> string \<Rightarrow> string \<Rightarrow> log_entry" where
  "confirmer_log p ecode tid d r =
     \<lparr>email_uid = Some (p_email_uid p),
      parser_pay_type = None,
      parser_amount = amountString p,
      parser_request_status = None,
      parser_is_expired = None,
      extracted_code = ecode,
      matched_topup_id = tid,
      decision = d,
      reason = Some (r @ '' (source: '' @ code_source p @ '')''),
      raw_subject = Some (p_subject p),
      short_body_preview = Some (bodyPreview p)\<rparr>"

text \<open>The entry of the success path; its reason names the credited amount and the user.\<close>

definition accepted_log :: "confirm_params \<Rightarrow> string option \<Rightarrow> topup \<Rightarrow> jsnum \<Rightarrow> log_entry" where
  "accepted_log p phrase tp coins_v =
     \<lparr>email_uid = Some (p_email_uid p),
      parser_pay_type = None,
      parser_amount = amountString p,
      parser_request_status = None,
      parser_is_expired = None,
      extracted_code = phrase,
      matched_topup_id = Some (topup_id tp),
      decision = ''ACCEPTED'',
      reason = Some (''Payment confirmed: '' @ numberToString coins_v
                       @ '' coins credited to user '' @ show_nat (userId tp)
                       @ '' (source: '' @ code_source p @ '', coins from email)''),
      raw_subject = Some (p_subject p),
      short_body_preview = Some (bodyPreview p)\<rparr>"

text \<open>
  The part of \<^verbatim>\<open>confirmTopupFromEmail\<close> after a topup was found: the status check, the
  expiry check, the check of the email date, and the transaction. When the transaction
  throws, \<^verbatim>\<open>db.transaction\<close> has rolled back, and the \<^verbatim>\<open>catch\<close> block continues from
  the database as it was.
\<close>

definition confirm_matched ::
    "confirm_params \<Rightarrow> clock \<Rightarrow> jsnum \<Rightarrow> topup \<Rightarrow> string option \<Rightarrow> database
       \<Rightarrow> confirmation \<times> database" where
  "confirm_matched p clk coins_v tp phrase db =
     (let reject = (\<lambda>r. (failure r,
                          logPayment (confirmer_log p phrase (Some (topup_id tp)) ''REJECTED'' r) db))
      in if status tp \<noteq> ''PENDING'' then
           reject (''TopUp status is '' @ status tp @ '', expected PENDING'')
         else if now_check clk > expiresAt tp then
           reject (''Payment arrived after TopUp expiry (expiresAt: ''
                     @ toISOString (expiresAt tp) @ '')'')
         else if emailDate p \<noteq> None \<and> the (emailDate p) > expiresAt tp + 5 * 60 * 1000 then
           reject (''Email date ('' @ toISOString (the (emailDate p))
                     @ '') is too far in the future (after expiresAt + 5min: ''
                     @ toISOString (expiresAt tp + 5 * 60 * 1000) @ '')'')
         else
           (case credit_transaction clk tp coins_v db of
              Inr db' \<Rightarrow>
                (\<lparr>success = True,
                  c_reason = ''Payment confirmed: '' @ numberToString coins_v @ '' coins credited'',
                  topupId = Some (topup_id tp),
                  c_userId = Some (userId tp),
                  coins = Some coins_v,
                  c_extracted_code = phrase\<rparr>,
                 logPayment (accepted_log p phrase tp coins_v) db')
            | Inl msg \<Rightarrow>
                (failure (''Database transaction failed: '' @ msg),
                 logPayment
                   (confirmer_log p phrase (Some (topup_id tp)) ''ERROR''
                      (''Database transaction failed: '' @ msg)) db)))"

text \<open>
  The two values \<^verbatim>\<open>confirmTopupFromEmail\<close> computes first: \<^verbatim>\<open>existingLog\<close>, whether
  \<^verbatim>\<open>payment_logs\<close> has a row for this \<^verbatim>\<open>email_uid\<close> with decision \<^verbatim>\<open>ACCEPTED\<close>, and
  \<^verbatim>\<open>coins\<close>, \<^verbatim>\<open>Math.floor(parseFloat(amountString || "0"))\<close>.
\<close>

definition existingLog :: "database \<Rightarrow> string \<Rightarrow> bool" where
  "existingLog db uid =
     (\<exists>l \<in> set (payment_logs db). email_uid l = Some uid \<and> decision l = ''ACCEPTED'')"

definition email_coins :: "(string \<Rightarrow> jsnum) \<Rightarrow> string option \<Rightarrow> jsnum" where
  "email_coins parseFloat a =
     Math_floor (parseFloat (js_or (case a of None \<Rightarrow> [] | Some t \<Rightarrow> t) ''0''))"

definition invalid_amount_reason :: "string option \<Rightarrow> string" where
  "invalid_amount_reason a =
     ''Invalid email amount: '' @ show_opt a
       @ '' (must be > 0). Parser returned empty/invalid amount - likely no strong transaction match found.''"

text \<open>
  \<^verbatim>\<open>confirmTopupFromEmail\<close>: the idempotency check on \<^verbatim>\<open>payment_logs\<close>, the amount, the
  phrase match, then the checks and the transaction.
\<close>

definition confirmTopupFromEmail ::
    "(string \<Rightarrow> jsnum) \<Rightarrow> confirm_params \<Rightarrow> clock \<Rightarrow> database \<Rightarrow> confirmation \<times> database" where
  "confirmTopupFromEmail parseFloat p clk db =
     (if existingLog db (p_email_uid p) then
        (failure (''Email UID '' @ p_email_uid p @ '' already processed (idempotency check)''), db)
      else
        (let coins_v = email_coins parseFloat (amountString p)
         in if isNaN coins_v \<or> js_le_zero coins_v then
              (failure (invalid_amount_reason (amountString p)),
               logPayment
                 (confirmer_log p (codeCandidate p) None ''REJECTED''
                    (invalid_amount_reason (amountString p))) db)
            else
              (let matchResult = findMatchingTopupByPhrase db (now_active clk) (codeCandidate p)
               in case m_topup matchResult of
                    None \<Rightarrow>
                      (failure (m_reason matchResult),
                       logPayment
                         (confirmer_log p (matchedPhrase matchResult) None
                            (if js_includes (m_reason matchResult) ''Multiple''
                             then ''REJECTED'' else ''IGNORED'')
                            (m_reason matchResult)) db)
                  | Some tp \<Rightarrow>
                      confirm_matched p clk coins_v tp (matchedPhrase matchResult) db)))"

text \<open>
  A call reaches the transaction when none of the returns before the \<^verbatim>\<open>try\<close> block is
  taken: no accepted log row for the message, a positive amount, a matched topup \<open>tp\<close>,
  and the three checks on it passed.
\<close>

definition reaches_transaction ::
    "(string \<Rightarrow> jsnum) \<Rightarrow> confirm_params \<Rightarrow> clock \<Rightarrow> database \<Rightarrow> topup \<Rightarrow> bool" where
  "reaches_transaction parseFloat p clk db tp =
     (\<not> existingLog db (p_email_uid p)
      \<and> \<not> isNaN (email_coins parseFloat (amountString p))
      \<and> \<not> js_le_zero (email_coins parseFloat (amountString p))
      \<and> m_topup (findMatchingTopupByPhrase db (now_active clk) (codeCandidate p)) = Some tp
      \<and> status tp = ''PENDING''
      \<and> \<not> now_check clk > expiresAt tp
      \<and> (emailDate p = None \<or> \<not> the (emailDate p) > expiresAt tp + 5 * 60 * 1000))"

section \<open>The scan pass (services/gmailPoller.js)\<close>

text \<open>
  What the mailbox and the external parser do for one message of a pass is an input:
  the uid the search returned (\<open>None\<close> when it does not read as a number), the result of
  \<^verbatim>\<open>fetchOne\<close> (an exception, a message without source, or the subject, body text and
  date of the message together with the result of the parser), whether
  \<^verbatim>\<open>messageFlagsAdd\<close> succeeds, and the clock of the confirmer. Any other exception
  raised inside the \<^verbatim>\<open>try\<close> block of the loop body takes the path of \<open>FetchThrows\<close>.
\<close>

datatype parse_result = ParserThrows string | Parsed parserData

datatype fetch_result =
    FetchThrows string
  | NoSource string
  | Source string string "int option" parse_result

record message =
  uidNum :: "int option"
  fetched :: fetch_result
  flag_ok :: bool
  msg_clock :: clock

text \<open>The counters of a pass, with \<^verbatim>\<open>highestProcessedUid\<close>.\<close>

record scan_state =
  processedCount :: nat
  parsedCount :: nat
  confirmedCount :: nat
  rejectedCount :: nat
  highestProcessedUid :: int

text \<open>
  \<^verbatim>\<open>markerExists\<close> and \<^verbatim>\<open>markProcessed\<close> on the table \<^verbatim>\<open>mail_markers\<close>, whose key is
  the text \<^verbatim>\<open>mailbox:uid\<close>. An insert of a key that exists fails on the primary key and
  \<^verbatim>\<open>markProcessed\<close> returns false. (The table exists: db.js creates it at start-up.)
\<close>

definition markerKey :: "string \<Rightarrow> string \<Rightarrow> string" where
  "markerKey mailbox uid = mailbox @ '':'' @ uid"

definition markerExists :: "database \<Rightarrow> string \<Rightarrow> string \<Rightarrow> bool" where
  "markerExists db mailbox uid = (markerKey mailbox uid \<in> set (mail_markers db))"

definition markProcessed :: "string \<Rightarrow> string \<Rightarrow> database \<Rightarrow> database" where
  "markProcessed mailbox uid db =
     (if markerKey mailbox uid \<in> set (mail_markers db) then db
      else db\<lparr>mail_markers := mail_markers db @ [markerKey mailbox uid]\<rparr>)"

text \<open>The entries the poller itself hands to \<^verbatim>\<open>logPayment\<close>.\<close>

definition poller_log ::
    "string option \<Rightarrow> string \<Rightarrow> string \<Rightarrow> string option \<Rightarrow> string option \<Rightarrow> log_entry" where
  "poller_log uid d r subj preview =
     \<lparr>email_uid = uid, parser_pay_type = None, parser_amount = None,
      parser_request_status = None, parser_is_expired = None, extracted_code = None,
      matched_topup_id = None, decision = d, reason = Some r, raw_subject = subj,
      short_body_preview = preview\<rparr>"

text \<open>
  The tail of the loop body, reached when no \<^verbatim>\<open>continue\<close> was taken: with
  \<^verbatim>\<open>savedAny\<close> set, insert the marker and advance \<^verbatim>\<open>highestProcessedUid\<close>.
\<close>

definition mark_and_advance ::
    "string \<Rightarrow> int \<Rightarrow> database \<times> scan_state \<Rightarrow> database \<times> scan_state" where
  "mark_and_advance mailboxName u = (\<lambda>(db, st).
     (markProcessed mailboxName (show_int u) db,
      if u > highestProcessedUid st then st\<lparr>highestProcessedUid := u\<rparr> else st))"

text \<open>
  One iteration of the \<^verbatim>\<open>for\<close> loop of \<^verbatim>\<open>processEmails\<close>. A \<^verbatim>\<open>continue\<close> ends the
  iteration where it stands: the statements after the \<^verbatim>\<open>try\<close> block do not run.
\<close>

definition process_message ::
    "(string \<Rightarrow> jsnum) \<Rightarrow> string \<Rightarrow> int \<Rightarrow> message \<Rightarrow> database \<times> scan_state
       \<Rightarrow> database \<times> scan_state" where
  "process_message parseFloat mailboxName startUid m = (\<lambda>(db, st).
     (case uidNum m of
        None \<Rightarrow> (db, st)
      | Some u \<Rightarrow>
          if u < startUid then (db, st)
          else
            (let uid = show_int u
             in if markerExists db mailboxName uid then
                  (db, if u > highestProcessedUid st then st\<lparr>highestProcessedUid := u\<rparr> else st)
                else
                  (case fetched m of
                     FetchThrows msg \<Rightarrow>
                       mark_and_advance mailboxName u
                         (logPayment
                            (poller_log (Some uid) ''ERROR'' (''Email processing error: '' @ msg)
                               (Some ''Unknown'') None) db, st)
                   | NoSource envelopeSubject \<Rightarrow>
                       (logPayment
                          (poller_log (Some uid) ''IGNORED'' ''Could not fetch email source''
                             (Some (js_or envelopeSubject ''Unknown'')) None) db, st)
                   | Source emailSubject bodyText emailDate_v parsed \<Rightarrow>
                       (case parsed of
                          ParserThrows msg \<Rightarrow>
                            (logPayment
                               (poller_log (Some uid) ''ERROR'' (''Python parser error: '' @ msg)
                                  (Some emailSubject) (Some (take 200 bodyText))) db,
                             st\<lparr>rejectedCount := rejectedCount st + 1\<rparr>)
                        | Parsed pd \<Rightarrow>
                            (let st1 = st\<lparr>parsedCount := parsedCount st + 1\<rparr>;
                                 (validation, db1) =
                                   validatePayment parseFloat pd bodyText emailSubject uid db
                             in if \<not> valid validation then
                                  ((if flag_ok m then markProcessed mailboxName uid db1 else db1),
                                   st1\<lparr>rejectedCount := rejectedCount st1 + 1\<rparr>)
                                else
                                  (let (confirmation, db2) =
                                         confirmTopupFromEmail parseFloat
                                           \<lparr>codeCandidate = v_codeCandidate validation,
                                            code_source =
                                              (case v_code_source validation of
                                                 None \<Rightarrow> ''unknown'' | Some src \<Rightarrow> src),
                                            amountString = amount pd,
                                            p_email_uid = uid,
                                            p_subject = emailSubject,
                                            bodyPreview = take 200 bodyText,
                                            emailDate = emailDate_v\<rparr>
                                           (msg_clock m) db1;
                                       st2 = (if success confirmation
                                              then st1\<lparr>processedCount := processedCount st1 + 1,
                                                       confirmedCount := confirmedCount st1 + 1\<rparr>
                                              else st1\<lparr>rejectedCount := rejectedCount st1 + 1\<rparr>);
                                       db3 = (if flag_ok m then markProcessed mailboxName uid db2
                                              else db2)
                                   in mark_and_advance mailboxName u (db3, st2))))))))"

text \<open>The loop over the search result.\<close>

definition scan_messages ::
    "(string \<Rightarrow> jsnum) \<Rightarrow> string \<Rightarrow> int \<Rightarrow> message list \<Rightarrow> database \<times> scan_state
       \<Rightarrow> database \<times> scan_state" where
  "scan_messages parseFloat mailboxName startUid ms s =
     foldl (\<lambda>acc m. process_message parseFloat mailboxName startUid m acc) s ms"

text \<open>
  \<^verbatim>\<open>SELECT MIN(armed_uidnext) FROM topups WHERE status = 'PENDING' AND armed_uidnext IS
  NOT NULL\<close>
\<close>

definition min_armed_uidnext :: "database \<Rightarrow> int option" where
  "min_armed_uidnext db =
     (case [the (armed_uidnext t).
              t \<leftarrow> topups db, status t = ''PENDING'', armed_uidnext t \<noteq> None] of
        [] \<Rightarrow> None
      | x # xs \<Rightarrow> Some (fold min xs x))"

text \<open>
  What the mailbox does for a pass: \<open>opened\<close> is the first mailbox of the fallback list
  that opens, with its \<^verbatim>\<open>uidNext\<close> (\<open>None\<close> when none opens, and then
  \<^verbatim>\<open>openMailboxWithFallback\<close> throws); \<open>found\<close> is the result of the search
  (\<open>Inl\<close> with the message of the error when the search throws). The search criteria (the
  range from the start uid on, and the unseen flag unless the debug setting is on) only
  decide which messages the search returns.
\<close>

record mailbox_io =
  opened :: "(string \<times> int option) option"
  found :: "string + message list"

text \<open>
  \<^verbatim>\<open>openMailboxWithFallback\<close> stores \<^verbatim>\<open>uidNext\<close> as \<^verbatim>\<open>gmail_start_uid\<close> when the
  setting is missing or empty and \<^verbatim>\<open>uidNext\<close> is positive.
\<close>

definition save_first_uidnext :: "int option \<Rightarrow> database \<Rightarrow> database" where
  "save_first_uidnext uidNext db =
     (case uidNext of
        None \<Rightarrow> db
      | Some n \<Rightarrow>
          if (gmail_start_uid db = None \<or> gmail_start_uid db = Some []) \<and> n > 0
          then db\<lparr>gmail_start_uid := Some (show_int n)\<rparr> else db)"

text \<open>
  \<^verbatim>\<open>processEmails\<close>. The result says whether the pass returned or threw, and gives the
  counters of a pass that ran the loop. (The setting \<^verbatim>\<open>gmail_last_checked_at\<close> is not
  modelled.) An exception of the mailbox is logged by the outer \<^verbatim>\<open>catch\<close> and thrown on.
\<close>

definition processEmails ::
    "(string \<Rightarrow> jsnum) \<Rightarrow> mailbox_io \<Rightarrow> database \<Rightarrow> (completion \<times> scan_state option) \<times> database" where
  "processEmails parseFloat io db =
     (case opened io of
        None \<Rightarrow>
          ((Thrown, None),
           logPayment (poller_log None ''ERROR''
                         ''Batch processing error: Could not open any mailbox'' None None) db)
      | Some (mailboxName, uidNext) \<Rightarrow>
          (let db0 = save_first_uidnext uidNext db
           in case min_armed_uidnext db0 of
                None \<Rightarrow> ((Returned, None), db0)
              | Some startUid \<Rightarrow>
                  (case found io of
                     Inl msg \<Rightarrow>
                       ((Thrown, None),
                        logPayment (poller_log None ''ERROR''
                                      (''Batch processing error: '' @ msg) None None) db0)
                   | Inr uids \<Rightarrow>
                       if uids = [] then ((Returned, None), db0)
                       else
                         (let (db1, st) =
                                scan_messages parseFloat mailboxName startUid uids
                                  (db0, \<lparr>processedCount = 0, parsedCount = 0, confirmedCount = 0,
                                         rejectedCount = 0,
                                         highestProcessedUid = startUid - 1\<rparr>);
                              db2 = (if highestProcessedUid st \<ge> startUid
                                     then db1\<lparr>gmail_start_uid :=
                                                Some (show_int (highestProcessedUid st + 1))\<rparr>
                                     else db1)
                          in ((Returned, Some st), db2)))))"

text \<open>A database with no rows, and the parser output of a well-formed payment email.\<close>

definition empty_db :: database where
  "empty_db =
     \<lparr>topups = [], users = [], payment_logs = [], mail_markers = [],
      gmail_start_uid = None, logPayment_calls = []\<rparr>"

definition sent_40 :: parserData where
  "sent_40 =
     \<lparr>amount = Some ''40'', pay_type = Some ''sent'', request_status = [], is_expired = None,
      receipt_memo = [], note_part = ''vine oak stone reef'', subject = []\<rparr>"


text \<open>
  One pending topup of user 7, who holds 10 coins; an email for it reporting 25.9; and a
  clock that reads the same instant four times.
\<close>

definition ex_topup :: topup where
  "ex_topup =
     \<lparr>topup_id = 1, userId = 7, code = ''vine oak stone reef'', status = ''PENDING'',
      expiresAt = 2000000, createdAt = 1000000, amount_coins = None,
      armed_uidnext = Some 1000\<rparr>"

definition ex_db :: database where
  "ex_db = empty_db\<lparr>topups := [ex_topup], users := [\<lparr>user_id = 7, balance_coins = Fin 10\<rparr>]\<rparr>"

definition ex_params :: confirm_params where
  "ex_params =
     \<lparr>codeCandidate = Some ''vine oak stone reef'', code_source = ''topup_line'',
      amountString = Some ''25.9'', p_email_uid = ''1005'', p_subject = ''Payment'',
      bodyPreview = ''TOPUP: vine oak stone reef'', emailDate = None\<rparr>"

definition at_time :: "int \<Rightarrow> clock" where
  "at_time t = \<lparr>now_active = t, now_check = t, now_select = t, now_update = t\<rparr>"

text \<open>
  The illegal state with two pending topups whose phrases have the same normal form, the
  first expiring before the second, and an email for that phrase.
\<close>

definition collide_db :: database where
  "collide_db =
     empty_db
       \<lparr>topups :=
          [\<lparr>topup_id = 1, userId = 7, code = ''alpha bravo'', status = ''PENDING'',
            expiresAt = 10000, createdAt = 1000, amount_coins = None, armed_uidnext = Some 1000\<rparr>,
           \<lparr>topup_id = 2, userId = 8, code = ''ALPHA  Bravo'', status = ''PENDING'',
            expiresAt = 100000, createdAt = 2000, amount_coins = None, armed_uidnext = Some 1000\<rparr>],
        users := [\<lparr>user_id = 7, balance_coins = Fin 10\<rparr>, \<lparr>user_id = 8, balance_coins = Fin 0\<rparr>]\<rparr>"

definition collide_params :: confirm_params where
  "collide_params =
     \<lparr>codeCandidate = Some ''alpha bravo'', code_source = ''note_part'',
      amountString = Some ''40'', p_email_uid = ''1005'', p_subject = ''Payment'',
      bodyPreview = ''alpha bravo'', emailDate = None\<rparr>"

text \<open>
  The messages for which an iteration of the loop advances \<^verbatim>\<open>highestProcessedUid\<close>
  whatever the confirmer decides: the uid is at least the start uid, and either the
  marker exists already, or the fetch throws, or the parser answers and the validator
  accepts its answer. (\<open>db\<close> is the database at the start of the loop.)
\<close>

definition runs_to_end :: "(string \<Rightarrow> jsnum) \<Rightarrow> message \<Rightarrow> bool" where
  "runs_to_end parseFloat m =
     (case fetched m of
        FetchThrows msg \<Rightarrow> True
      | NoSource envelopeSubject \<Rightarrow> False
      | Source emailSubject bodyText emailDate_v parsed \<Rightarrow>
          (case parsed of
             ParserThrows msg \<Rightarrow> False
           | Parsed pd \<Rightarrow>
               rules_1_to_4 parseFloat pd
               \<and> fst (extractPassphraseFromSafeZones pd bodyText emailSubject) \<notin> {None, Some []}))"

definition advances :: "(string \<Rightarrow> jsnum) \<Rightarrow> string \<Rightarrow> int \<Rightarrow> database \<Rightarrow> message \<Rightarrow> bool" where
  "advances parseFloat mailboxName startUid db m =
     (case uidNum m of
        None \<Rightarrow> False
      | Some u \<Rightarrow>
          startUid \<le> u
          \<and> (markerExists db mailboxName (show_int u) \<or> runs_to_end parseFloat m))"

text \<open>
  A pass over the inbox; a message whose parser fails; and a well-formed payment email
  whose phrase matches no topup.
\<close>

definition inbox :: "message list \<Rightarrow> mailbox_io" where
  "inbox ms = \<lparr>opened = Some (''INBOX'', None), found = Inr ms\<rparr>"

definition broken_mail :: "int \<Rightarrow> message" where
  "broken_mail u =
     \<lparr>uidNum = Some u,
      fetched = Source ''Payment'' ''Hello'' None (ParserThrows ''timeout''),
      flag_ok = True, msg_clock = at_time 1500000\<rparr>"

definition other_mail :: "int \<Rightarrow> bool \<Rightarrow> message" where
  "other_mail u flagged =
     \<lparr>uidNum = Some u,
      fetched = Source ''Payment'' ''Hello'' None
                  (Parsed (sent_40\<lparr>note_part := ''some other words''\<rparr>)),
      flag_ok = flagged, msg_clock = at_time 1500000\<rparr>"

section \<open>Theorems\<close>

lemma pollGmail_returns: "fst (pollGmail oc s) = Returned"
  by (simp add: pollGmail_def Let_def split: prod.splits)

lemma pollLoop_iter_fixed: "pollLoop_iter oc s = (d, s') \<Longrightarrow> d = 20000 \<and> backoffMs s' = 2000"
  using pollGmail_returns [of oc s]
  by (auto simp: pollLoop_iter_def POLL_INTERVAL_def split: prod.splits completion.splits)

text \<open>
  C9. The claim: every failed poll cycle doubles the delay before the next attempt, from 2
  seconds up to 60 seconds. In the code a cycle whose connect fails, started from the base
  backoff, is followed by the normal interval of 20000 ms, and the backoff variable is back
  at 2000: \<^verbatim>\<open>pollGmail\<close> doubles the variable but swallows the error, so \<^verbatim>\<open>pollLoop\<close> takes
  its success branch, resets the variable and sleeps the fixed interval.
\<close>

theorem pollLoop_failed_cycle_delay:
  "pollLoop [ConnectFails, ScanFails, ConnectFails] \<lparr>isPolling = False, backoffMs = 2000\<rparr>
     = ([20000, 20000, 20000], \<lparr>isPolling = False, backoffMs = 2000\<rparr>)"
  by (simp add: pollLoop_iter_def pollGmail_def pollGmail_try_def POLL_INTERVAL_def)

subsection \<open>The passphrase extractor\<close>

lemma pick_candidate_three:
  "pick_candidate [(a, sa), (b, sb), (c, sc)] =
     (if normalizePhrase a \<noteq> [] then (Some (normalizePhrase a), Some sa)
      else if normalizePhrase b \<noteq> [] then (Some (normalizePhrase b), Some sb)
      else if normalizePhrase c \<noteq> [] then (Some (normalizePhrase c), Some sc)
      else (None, None))"
  by (simp add: Let_def)

text \<open>
  C6, as the code has it. \<^verbatim>\<open>extractPassphraseFromSafeZones\<close> returns the first non-empty
  candidate in the order: (1) the normalized text of a TOPUP line of the body, (2)
  \<^verbatim>\<open>note_part\<close>, (3) \<^verbatim>\<open>receipt_memo\<close>, (4) the email's own subject header, and
  \<^verbatim>\<open>facts.subject\<close> in its place only when the header is the empty string; each candidate
  is normalized before its emptiness check, and \<^verbatim>\<open>{code: null, code_source: null}\<close> is
  returned when every candidate is empty.
\<close>

theorem extractPassphrase_priority:
  "extractPassphraseFromSafeZones pd emailBody emailSubject =
     (let t = (case extractTopupLine emailBody of Some x \<Rightarrow> x | None \<Rightarrow> []);
          n = normalizePhrase (note_part pd);
          m = normalizePhrase (receipt_memo pd);
          s = normalizePhrase (if emailSubject \<noteq> [] then emailSubject else subject pd)
      in if t \<noteq> [] then (Some t, Some ''topup_line'')
         else if n \<noteq> [] then (Some n, Some ''note_part'')
         else if m \<noteq> [] then (Some m, Some ''receipt_memo'')
         else if s \<noteq> [] then (Some s, Some ''subject'')
         else (None, None))"
  unfolding extractPassphraseFromSafeZones_def pick_candidate_three
  by (simp add: js_or_def Let_def split: option.splits list.splits)

theorem extractPassphrase_priority_witness:
  "extractPassphraseFromSafeZones
     \<lparr>amount = Some ''40'', pay_type = Some ''sent'', request_status = [], is_expired = None,
      receipt_memo = ''Memo  Text'', note_part = '' '', subject = ''Payment''\<rparr>
     ''Hello'' ''You received money''
   = (Some ''memo text'', Some ''receipt_memo'')"
proof -
  have "normalizePhrase '' '' = []" "normalizePhrase ''Memo  Text'' = ''memo text''"
       "extractTopupLine ''Hello'' = None"
    by code_simp+
  then show ?thesis
    using extractPassphrase_priority
      [of "\<lparr>amount = Some ''40'', pay_type = Some ''sent'', request_status = [],
            is_expired = None, receipt_memo = ''Memo  Text'', note_part = '' '',
            subject = ''Payment''\<rparr>" "''Hello''" "''You received money''"]
    by (simp add: Let_def)
qed

text \<open>
  C6 as stated fails: with \<^verbatim>\<open>facts.subject\<close> = "alpha" and the subject header "beta" (no
  TOPUP line, note and memo empty) the code returns "beta", where the stated order gives
  "alpha".
\<close>

theorem extractPassphrase_subject_counterexample:
  "extractPassphraseFromSafeZones
     \<lparr>amount = Some ''40'', pay_type = Some ''sent'', request_status = [], is_expired = None,
      receipt_memo = [], note_part = [], subject = ''alpha''\<rparr> [] ''beta''
     = (Some ''beta'', Some ''subject'')
   \<and> spec_extractPassphrase
     \<lparr>amount = Some ''40'', pay_type = Some ''sent'', request_status = [], is_expired = None,
      receipt_memo = [], note_part = [], subject = ''alpha''\<rparr> [] ''beta''
     = (Some ''alpha'', Some ''subject'')"
  by code_simp

subsection \<open>The payment validator\<close>

lemma logPayment_calls_logPayment [simp]:
  "logPayment_calls (logPayment e db) = logPayment_calls db @ [e]"
  by (simp add: logPayment_def Let_def)

lemma logPayment_topups [simp]: "topups (logPayment e db) = topups db"
  and logPayment_users [simp]: "users (logPayment e db) = users db"
  and logPayment_markers [simp]: "mail_markers (logPayment e db) = mail_markers db"
  and logPayment_start_uid [simp]: "gmail_start_uid (logPayment e db) = gmail_start_uid db"
  by (simp_all add: logPayment_def Let_def)

lemma trim_Nil [simp]: "trim [] = []"
  by (simp add: trim_def)

lemma valid_rejected [simp]: "\<not> valid (rejected r)" "v_reason (rejected r) = r"
  by (simp_all add: rejected_def)

lemma validatePayment_result:
  assumes "validatePayment parseFloat pd emailBody emailSubject emailUid db = (v, db')"
  shows "(valid v \<longrightarrow> db' = db)
       \<and> (\<not> valid v \<longrightarrow>
            (\<exists>e. logPayment_calls db' = logPayment_calls db @ [e]
                 \<and> email_uid e = Some emailUid
                 \<and> reason e = Some (v_reason v)
                 \<and> decision e = (if rules_1_to_4 parseFloat pd then ''IGNORED'' else ''REJECTED'')))
       \<and> (valid v \<longleftrightarrow>
            rules_1_to_4 parseFloat pd
            \<and> fst (extractPassphraseFromSafeZones pd emailBody emailSubject) \<notin> {None, Some []})"
proof -
  obtain c src where ex: "extractPassphraseFromSafeZones pd emailBody emailSubject = (c, src)"
    by fastforce
  have js: "js_or emailBody [] = emailBody" "js_or emailSubject [] = emailSubject"
    by (simp_all add: js_or_def)
  have v: "v = fst (validatePayment parseFloat pd emailBody emailSubject emailUid db)"
    and d: "db' = snd (validatePayment parseFloat pd emailBody emailSubject emailUid db)"
    using assms by simp_all
  note defs = validatePayment_def rules_1_to_4_def js ex
  show ?thesis
  proof (cases "pay_type pd = Some ''sent''")
    case False
    then show ?thesis unfolding v d by (simp add: defs)
  next
    case sent: True
    show ?thesis
    proof (cases "amount pd = None \<or> amount pd = Some [] \<or> trim (the (amount pd)) = []")
      case True
      with sent show ?thesis unfolding v d by (cases "amount pd") (auto simp: defs)
    next
      case False
      then obtain a where a: "amount pd = Some a" "a \<noteq> []" "trim a \<noteq> []"
        by (cases "amount pd") auto
      show ?thesis
      proof (cases "isNaN (parseFloat a) \<or> js_le_zero (parseFloat a)")
        case True
        with sent a show ?thesis unfolding v d by (auto simp: defs)
      next
        case num: False
        show ?thesis
        proof (cases "request_status pd \<noteq> [] \<and> request_status pd \<noteq> ''active''")
          case True
          with sent a num show ?thesis unfolding v d by (simp add: defs)
        next
          case rs: False
          show ?thesis
          proof (cases "is_expired pd = Some True")
            case True
            with sent a num rs show ?thesis unfolding v d by (auto simp: defs)
          next
            case ex4: False
            show ?thesis
            proof (cases "c = None \<or> c = Some []")
              case True
              with sent a num rs ex4 show ?thesis unfolding v d by (auto simp: defs)
            next
              case False
              with sent a num rs ex4 show ?thesis unfolding v d by (auto simp: defs)
            qed
          qed
        qed
      qed
    qed
  qed
qed

text \<open>
  C7, as the code has it. A call of \<^verbatim>\<open>validatePayment\<close> that returns \<^verbatim>\<open>valid=false\<close>
  passes exactly one entry to \<^verbatim>\<open>logPayment\<close>, for the message, with the returned reason;
  its decision is \<^verbatim>\<open>REJECTED\<close> when one of rules 1 to 4 fails and \<^verbatim>\<open>IGNORED\<close> when
  they hold and no passphrase was found. A call that returns \<^verbatim>\<open>valid=true\<close> passes no
  entry and leaves the database as it was; it does so exactly when rules 1 to 4 hold and a
  passphrase was found.
\<close>

theorem validatePayment_log:
  assumes "validatePayment parseFloat pd emailBody emailSubject emailUid db = (v, db')"
  shows "(valid v \<longrightarrow> db' = db)
       \<and> (\<not> valid v \<longrightarrow>
            (\<exists>e. logPayment_calls db' = logPayment_calls db @ [e]
                 \<and> email_uid e = Some emailUid
                 \<and> reason e = Some (v_reason v)
                 \<and> decision e = (if rules_1_to_4 parseFloat pd then ''IGNORED'' else ''REJECTED'')))
       \<and> (valid v \<longleftrightarrow>
            rules_1_to_4 parseFloat pd
            \<and> fst (extractPassphraseFromSafeZones pd emailBody emailSubject) \<notin> {None, Some []})"
  using assms by (rule validatePayment_result)

theorem validatePayment_log_witness:
  "\<not> valid (fst (validatePayment parseFloat_decimal (sent_40\<lparr>pay_type := Some ''request''\<rparr>)
                    [] [] ''1005'' empty_db))
   \<and> map decision (logPayment_calls
        (snd (validatePayment parseFloat_decimal (sent_40\<lparr>pay_type := Some ''request''\<rparr>)
                [] [] ''1005'' empty_db))) = [''REJECTED'']"
proof -
  obtain v db' where r:
    "validatePayment parseFloat_decimal (sent_40\<lparr>pay_type := Some ''request''\<rparr>)
       [] [] ''1005'' empty_db = (v, db')"
    by (cases "validatePayment parseFloat_decimal (sent_40\<lparr>pay_type := Some ''request''\<rparr>)
                 [] [] ''1005'' empty_db")
  have nr: "\<not> rules_1_to_4 parseFloat_decimal (sent_40\<lparr>pay_type := Some ''request''\<rparr>)"
    by (simp add: rules_1_to_4_def sent_40_def)
  have e: "logPayment_calls empty_db = []"
    by (simp add: empty_db_def)
  from validatePayment_log [OF r] nr e show ?thesis
    by (auto simp: r)
qed

text \<open>
  C7 as stated fails: for a "sent" payment of 40 whose note holds a phrase,
  \<^verbatim>\<open>validatePayment\<close> returns \<^verbatim>\<open>valid=true\<close> and passes no entry to \<^verbatim>\<open>logPayment\<close>.
\<close>

theorem validatePayment_valid_counterexample:
  "valid (fst (validatePayment parseFloat_decimal sent_40 [] [] ''1005'' empty_db))
   \<and> logPayment_calls (snd (validatePayment parseFloat_decimal sent_40 [] [] ''1005'' empty_db)) = []"
  by code_simp

subsection \<open>The topup confirmer: the paths of a call\<close>

lemma success_failure [simp]: "\<not> success (failure r)" "c_reason (failure r) = r"
  by (simp_all add: failure_def)

lemma confirmer_log_simps [simp]:
  "decision (confirmer_log p ec tid d r) = d"
  "email_uid (confirmer_log p ec tid d r) = Some (p_email_uid p)"
  "reason (confirmer_log p ec tid d r) = Some (r @ '' (source: '' @ code_source p @ '')'')"
  "matched_topup_id (confirmer_log p ec tid d r) = tid"
  "extracted_code (confirmer_log p ec tid d r) = ec"
  by (simp_all add: confirmer_log_def)

lemma confirm_matched_cases [consumes 1, case_names status expired future commit rollback]:
  assumes "confirm_matched p clk c tp ph db = (r, db')"
  obtains
    (status) "status tp \<noteq> ''PENDING''"
      "r = failure (''TopUp status is '' @ status tp @ '', expected PENDING'')"
      "db' = logPayment (confirmer_log p ph (Some (topup_id tp)) ''REJECTED''
                (''TopUp status is '' @ status tp @ '', expected PENDING'')) db"
  | (expired) "status tp = ''PENDING''" "now_check clk > expiresAt tp"
      "r = failure (''Payment arrived after TopUp expiry (expiresAt: ''
                   @ toISOString (expiresAt tp) @ '')'')"
      "db' = logPayment (confirmer_log p ph (Some (topup_id tp)) ''REJECTED''
                (''Payment arrived after TopUp expiry (expiresAt: ''
                   @ toISOString (expiresAt tp) @ '')'')) db"
  | (future) "status tp = ''PENDING''" "\<not> now_check clk > expiresAt tp"
      "emailDate p \<noteq> None" "the (emailDate p) > expiresAt tp + 300000"
      "r = failure (''Email date ('' @ toISOString (the (emailDate p))
                   @ '') is too far in the future (after expiresAt + 5min: ''
                   @ toISOString (expiresAt tp + 5 * 60 * 1000) @ '')'')"
      "db' = logPayment (confirmer_log p ph (Some (topup_id tp)) ''REJECTED''
                (''Email date ('' @ toISOString (the (emailDate p))
                   @ '') is too far in the future (after expiresAt + 5min: ''
                   @ toISOString (expiresAt tp + 5 * 60 * 1000) @ '')'')) db"
  | (commit) d where "status tp = ''PENDING''" "\<not> now_check clk > expiresAt tp"
      "emailDate p = None \<or> \<not> the (emailDate p) > expiresAt tp + 300000"
      "credit_transaction clk tp c db = Inr d"
      "r = \<lparr>success = True,
             c_reason = ''Payment confirmed: '' @ numberToString c @ '' coins credited'',
             topupId = Some (topup_id tp), c_userId = Some (userId tp), coins = Some c,
             c_extracted_code = ph\<rparr>"
      "db' = logPayment (accepted_log p ph tp c) d"
  | (rollback) msg where "status tp = ''PENDING''" "\<not> now_check clk > expiresAt tp"
      "emailDate p = None \<or> \<not> the (emailDate p) > expiresAt tp + 300000"
      "credit_transaction clk tp c db = Inl msg"
      "r = failure (''Database transaction failed: '' @ msg)"
      "db' = logPayment (confirmer_log p ph (Some (topup_id tp)) ''ERROR''
                (''Database transaction failed: '' @ msg)) db"
proof (cases "status tp = ''PENDING''")
  case False
  with assms status show ?thesis by (simp add: confirm_matched_def)
next
  case st: True
  show ?thesis
  proof (cases "now_check clk > expiresAt tp")
    case True
    with assms st expired show ?thesis by (auto simp: confirm_matched_def)
  next
    case ne: False
    show ?thesis
    proof (cases "emailDate p \<noteq> None \<and> the (emailDate p) > expiresAt tp + 300000")
      case True
      with assms st ne future show ?thesis by (auto simp: confirm_matched_def)
    next
      case nf: False
      show ?thesis
      proof (cases "credit_transaction clk tp c db")
        case (Inl msg)
        with assms st ne nf rollback [of msg] show ?thesis by (auto simp: confirm_matched_def)
      next
        case (Inr d)
        with assms st ne nf commit [of d] show ?thesis by (auto simp: confirm_matched_def)
      qed
    qed
  qed
qed


lemma confirm_cases [consumes 1, case_names gate amount nomatch matched]:
  assumes "confirmTopupFromEmail pf p clk db = (r, db')"
  obtains
    (gate) "existingLog db (p_email_uid p)"
      "r = failure (''Email UID '' @ p_email_uid p @ '' already processed (idempotency check)'')"
      "db' = db"
  | (amount) "\<not> existingLog db (p_email_uid p)"
      "isNaN (email_coins pf (amountString p)) \<or> js_le_zero (email_coins pf (amountString p))"
      "r = failure (invalid_amount_reason (amountString p))"
      "db' = logPayment (confirmer_log p (codeCandidate p) None ''REJECTED''
                (invalid_amount_reason (amountString p))) db"
  | (nomatch) mr where "\<not> existingLog db (p_email_uid p)"
      "\<not> isNaN (email_coins pf (amountString p))" "\<not> js_le_zero (email_coins pf (amountString p))"
      "mr = findMatchingTopupByPhrase db (now_active clk) (codeCandidate p)"
      "m_topup mr = None"
      "r = failure (m_reason mr)"
      "db' = logPayment (confirmer_log p (matchedPhrase mr) None
                (if js_includes (m_reason mr) ''Multiple'' then ''REJECTED'' else ''IGNORED'')
                (m_reason mr)) db"
  | (matched) mr tp where "\<not> existingLog db (p_email_uid p)"
      "\<not> isNaN (email_coins pf (amountString p))" "\<not> js_le_zero (email_coins pf (amountString p))"
      "mr = findMatchingTopupByPhrase db (now_active clk) (codeCandidate p)"
      "m_topup mr = Some tp"
      "confirm_matched p clk (email_coins pf (amountString p)) tp (matchedPhrase mr) db = (r, db')"
proof (cases "existingLog db (p_email_uid p)")
  case True
  with assms have "r = failure (''Email UID '' @ p_email_uid p @ '' already processed (idempotency check)'')"
      "db' = db"
    by (simp_all add: confirmTopupFromEmail_def)
  with True show ?thesis by (rule gate)
next
  case ng: False
  show ?thesis
  proof (cases "isNaN (email_coins pf (amountString p)) \<or> js_le_zero (email_coins pf (amountString p))")
    case True
    have "confirmTopupFromEmail pf p clk db =
            (failure (invalid_amount_reason (amountString p)),
             logPayment (confirmer_log p (codeCandidate p) None ''REJECTED''
                (invalid_amount_reason (amountString p))) db)"
      unfolding confirmTopupFromEmail_def Let_def using ng True by simp
    with assms have "r = failure (invalid_amount_reason (amountString p))"
      "db' = logPayment (confirmer_log p (codeCandidate p) None ''REJECTED''
                (invalid_amount_reason (amountString p))) db"
      by simp_all
    with ng True show ?thesis by (rule amount)
  next
    case ok: False
    then have ok1: "\<not> isNaN (email_coins pf (amountString p))"
      and ok2: "\<not> js_le_zero (email_coins pf (amountString p))"
      by simp_all
    define mr where "mr = findMatchingTopupByPhrase db (now_active clk) (codeCandidate p)"
    have eq: "confirmTopupFromEmail pf p clk db =
            (case m_topup mr of
               None \<Rightarrow>
                 (failure (m_reason mr),
                  logPayment (confirmer_log p (matchedPhrase mr) None
                    (if js_includes (m_reason mr) ''Multiple'' then ''REJECTED'' else ''IGNORED'')
                    (m_reason mr)) db)
             | Some tp \<Rightarrow>
                 confirm_matched p clk (email_coins pf (amountString p)) tp (matchedPhrase mr) db)"
      unfolding confirmTopupFromEmail_def Let_def mr_def using ng ok1 ok2 by simp
    show ?thesis
    proof (cases "m_topup mr")
      case None
      with eq assms have "r = failure (m_reason mr)"
        "db' = logPayment (confirmer_log p (matchedPhrase mr) None
                (if js_includes (m_reason mr) ''Multiple'' then ''REJECTED'' else ''IGNORED'')
                (m_reason mr)) db"
        by simp_all
      with ng ok1 ok2 mr_def None show ?thesis by (rule nomatch)
    next
      case (Some tp)
      with eq assms have
        "confirm_matched p clk (email_coins pf (amountString p)) tp (matchedPhrase mr) db = (r, db')"
        by simp
      with ng ok1 ok2 mr_def Some show ?thesis by (rule matched)
    qed
  qed
qed

lemma filter_one_decomp:
  "length (filter P xs) = 1 \<Longrightarrow>
     \<exists>pre x post. xs = pre @ x # post \<and> P x \<and> (\<forall>y\<in>set pre. \<not> P y) \<and> (\<forall>y\<in>set post. \<not> P y)"
proof (induction xs)
  case Nil
  then show ?case by simp
next
  case (Cons a xs)
  show ?case
  proof (cases "P a")
    case True
    with Cons.prems have "filter P xs = []" by simp
    then have "\<forall>y\<in>set xs. \<not> P y" by (simp add: filter_empty_conv)
    with True show ?thesis by (intro exI [of _ "[]"] exI [of _ a] exI [of _ xs]) simp
  next
    case False
    with Cons obtain pre x post where
      "xs = pre @ x # post" "P x" "\<forall>y\<in>set pre. \<not> P y" "\<forall>y\<in>set post. \<not> P y"
      by auto
    with False show ?thesis
      by (intro exI [of _ "a # pre"] exI [of _ x] exI [of _ post]) simp
  qed
qed

lemma map_update_decomp:
  "(\<forall>y\<in>set pre. \<not> P y) \<Longrightarrow> (\<forall>y\<in>set post. \<not> P y) \<Longrightarrow> P x \<Longrightarrow>
     map (\<lambda>t. if P t then f t else t) (pre @ x # post) = pre @ f x # post"
  by (simp add: map_idI)

subsection \<open>Sums that are exact\<close>

text \<open>
  An integer of magnitude below 2^53 is a double, so the floating-point sum of two of
  them is their sum whenever that is below 2^53 as well.
\<close>

lemma bit_length_nonneg: "0 \<le> bit_length n"
  by (induction n rule: bit_length.induct) (subst bit_length.simps, simp)

lemma bit_length_pos: "0 < n \<Longrightarrow> 1 \<le> bit_length n"
  using bit_length_nonneg [of "n div 2"] by (subst bit_length.simps) simp

lemma bit_length_lower: "0 < n \<Longrightarrow> 2 ^ nat (bit_length n - 1) \<le> n"
proof (induction n rule: bit_length.induct)
  case (1 n)
  show ?case
  proof (cases "n = 1")
    case True
    then show ?thesis by (simp add: bit_length.simps [of 1] bit_length.simps [of 0])
  next
    case False
    with 1(2) have h: "0 < n div 2" by simp
    from 1(1) 1(2) h have ih: "2 ^ nat (bit_length (n div 2) - 1) \<le> n div 2" by simp
    from bit_length_pos [OF h] have "nat (bit_length (n div 2)) = Suc (nat (bit_length (n div 2) - 1))"
      by simp
    then have "(2::int) ^ nat (bit_length (n div 2)) = 2 * 2 ^ nat (bit_length (n div 2) - 1)"
      by simp
    also from ih have "\<dots> \<le> 2 * (n div 2)" by simp
    also have "\<dots> \<le> n" by simp
    finally show ?thesis using 1(2) by (subst bit_length.simps) simp
  qed
qed

lemma bit_length_one: "bit_length 1 = 1"
  by (simp add: bit_length.simps [of 1] bit_length.simps [of 0])

lemma floor_log2_int:
  assumes "0 < n" "n < 2 ^ 53"
  shows "floor_log2 (of_int n) \<le> 52"
proof -
  let ?d = "bit_length n - 1"
  from bit_length_pos [OF assms(1)] have d0: "0 \<le> ?d" by simp
  from bit_length_lower [OF assms(1)] have le: "(2::int) ^ nat ?d \<le> n" .
  then have "(of_int (2 ^ nat ?d) :: rat) \<le> of_int n"
    by (simp only: of_int_le_iff)
  then have p: "pow2 ?d \<le> of_int n"
    using d0 by (simp add: pow2_def)
  have "floor_log2 (of_int n) = ?d"
    using p by (simp add: floor_log2_def bit_length_one)
  moreover from le assms(2) have "(2::int) ^ nat ?d < 2 ^ 53" by linarith
  then have "nat ?d < 53" by (rule power_less_imp_less_exp [rotated]) simp
  ultimately show ?thesis by simp
qed

lemma round_half_even_int: "round_half_even (of_int z) = z"
  by (simp add: round_half_even_def)

lemma to_double_pos_int:
  assumes "0 < n" "n < 2 ^ 53"
  shows "to_double_pos (of_int n) = Fin (of_int n)"
proof -
  define l where "l = floor_log2 (of_int n)"
  define k where "k = nat (- max (l - 52) (- 1074))"
  from floor_log2_int [OF assms] have l: "l \<le> 52" by (simp add: l_def)
  then have e: "max (l - 52) (- 1074) = - int k" by (simp add: k_def)
  have p: "pow2 (- int k) = 1 / 2 ^ k"
    by (simp add: pow2_def)
  have "(of_int n :: rat) / (1 / 2 ^ k) = of_int (n * 2 ^ k)" by simp
  then have m: "round_half_even (of_int n / (1 / 2 ^ k)) = n * 2 ^ k"
    by (simp only: round_half_even_int)
  have ne: "- int k \<noteq> 971" by simp
  show ?thesis
    unfolding to_double_pos_def l_def [symmetric] Let_def e p m
    using l ne by simp
qed

lemma to_double_int:
  assumes "\<bar>n\<bar> < 2 ^ 53"
  shows "to_double (of_int n) = Fin (of_int n)"
proof -
  consider "n = 0" | "0 < n" | "n < 0" by linarith
  then show ?thesis
  proof cases
    case 1
    then show ?thesis by (simp add: to_double_def)
  next
    case 2
    with assms have "n < 2 ^ 53" by simp
    from to_double_pos_int [OF 2 this] 2 show ?thesis by (simp add: to_double_def)
  next
    case 3
    with assms have "0 < - n" "- n < 2 ^ 53" by simp_all
    from to_double_pos_int [OF this] 3 show ?thesis by (simp add: to_double_def)
  qed
qed

lemma js_add_int:
  assumes "\<bar>b\<bar> < 2 ^ 53" "\<bar>k\<bar> < 2 ^ 53" "\<bar>b + k\<bar> < 2 ^ 53"
  shows "js_add (Fin (of_int b)) (Fin (of_int k)) = Fin (of_int (b + k))"
  using to_double_int [OF assms(1)] to_double_int [OF assms(2)] to_double_int [OF assms(3)]
  by (simp add: js_add_def)

subsection \<open>The transaction\<close>

lemma credit_commit:
  assumes "credit_transaction clk tp c db = Inr d"
  shows "\<exists>pre t post upre u upost.
           topups db = pre @ t # post
         \<and> tx_guard (now_update clk) (topup_id tp) t
         \<and> (\<forall>y\<in>set pre \<union> set post. \<not> tx_guard (now_update clk) (topup_id tp) y)
         \<and> topups d = pre @ t\<lparr>status := ''CONFIRMED'', amount_coins := Some c\<rparr> # post
         \<and> users db = upre @ u # upost
         \<and> user_id u = userId tp
         \<and> (\<forall>y\<in>set upre \<union> set upost. user_id y \<noteq> userId tp)
         \<and> users d = upre @ u\<lparr>balance_coins := js_add (balance_coins u) c\<rparr> # upost
         \<and> payment_logs d = payment_logs db
         \<and> logPayment_calls d = logPayment_calls db
         \<and> mail_markers d = mail_markers db
         \<and> gmail_start_uid d = gmail_start_uid db"
proof -
  let ?g = "tx_guard (now_update clk) (topup_id tp)"
  let ?ug = "\<lambda>u. user_id u = userId tp"
  let ?ft = "\<lambda>t. t\<lparr>status := ''CONFIRMED'', amount_coins := Some c\<rparr>"
  let ?fu = "\<lambda>u. u\<lparr>balance_coins := js_add (balance_coins u) c\<rparr>"
  from assms have one: "length (filter ?g (topups db)) = 1"
    and uone: "length (filter ?ug (users db)) = 1"
    and d: "d = db\<lparr>topups := map (\<lambda>t. if ?g t then ?ft t else t) (topups db),
                   users := map (\<lambda>u. if ?ug u then ?fu u else u) (users db)\<rparr>"
    by (auto simp: credit_transaction_def Let_def split: option.splits if_splits)
  from filter_one_decomp [OF one] obtain pre t post where
    t: "topups db = pre @ t # post" "?g t" "\<forall>y\<in>set pre. \<not> ?g y" "\<forall>y\<in>set post. \<not> ?g y"
    by blast
  from filter_one_decomp [OF uone] obtain upre u upost where
    u: "users db = upre @ u # upost" "?ug u" "\<forall>y\<in>set upre. \<not> ?ug y" "\<forall>y\<in>set upost. \<not> ?ug y"
    by blast
  have mt: "map (\<lambda>t. if ?g t then ?ft t else t) (topups db) = pre @ ?ft t # post"
    unfolding t(1) using t(2-4) by (rule map_update_decomp [rotated 2])
  have mu: "map (\<lambda>u. if ?ug u then ?fu u else u) (users db) = upre @ ?fu u # upost"
    unfolding u(1) using u(2-4) by (rule map_update_decomp [rotated 2])
  have td: "topups d = pre @ ?ft t # post" and ud: "users d = upre @ ?fu u # upost"
    and rest: "payment_logs d = payment_logs db" "logPayment_calls d = logPayment_calls db"
      "mail_markers d = mail_markers db" "gmail_start_uid d = gmail_start_uid db"
    by (simp_all add: d mt mu)
  from t u td ud rest show ?thesis
    by (intro exI [of _ pre] exI [of _ t] exI [of _ post]
              exI [of _ upre] exI [of _ u] exI [of _ upost]) auto
qed

lemma credit_throw_iff:
  "(\<exists>msg. credit_transaction clk tp c db = Inl msg) \<longleftrightarrow>
     find (tx_guard (now_select clk) (topup_id tp)) (topups db) = None
     \<or> length (filter (tx_guard (now_update clk) (topup_id tp)) (topups db)) \<noteq> 1
     \<or> length (filter (\<lambda>u. user_id u = userId tp) (users db)) \<noteq> 1"
  by (auto simp: credit_transaction_def Let_def split: option.splits if_splits)


lemma logPayment_stored:
  "decision e \<noteq> [] \<Longrightarrow> email_uid e \<notin> set (map email_uid (payment_logs db)) \<Longrightarrow>
     map decision (payment_logs (logPayment e db)) = map decision (payment_logs db) @ [decision e]"
  by (simp add: logPayment_def Let_def)

text \<open>
  C1, as the code has it. For a call of \<^verbatim>\<open>confirmTopupFromEmail\<close> that reaches the
  transaction with the matched topup \<open>tp\<close>: the call succeeds exactly when the transaction
  does not throw, and it throws exactly when the re-read finds no pending, unexpired row of
  that id, or the update of \<^verbatim>\<open>topups\<close> or of \<^verbatim>\<open>users\<close> changes a number of rows other
  than one. On success one row of \<^verbatim>\<open>topups\<close>, the pending row with the matched id,
  becomes \<^verbatim>\<open>CONFIRMED\<close> with \<^verbatim>\<open>amount_coins\<close> the credited amount, and one row of
  \<^verbatim>\<open>users\<close>, the owner's, has its balance replaced by the floating-point sum of balance
  and amount; nothing else in the two tables changes. When the balance \<open>b\<close>, the amount
  \<open>k\<close> and \<open>b + k\<close> are integers of magnitude below 2^53, the new balance is exactly
  \<open>b + k\<close>. When the transaction throws, both tables are as before, the call returns
  \<^verbatim>\<open>success=false\<close> and hands one entry with decision \<^verbatim>\<open>ERROR\<close> to \<^verbatim>\<open>logPayment\<close>,
  which stores it unless \<^verbatim>\<open>payment_logs\<close> already has a row for the message.
\<close>

theorem confirm_transaction_atomic:
  assumes call: "confirmTopupFromEmail parseFloat p clk db = (r, db')"
    and reach: "reaches_transaction parseFloat p clk db tp"
  shows "(success r \<longleftrightarrow>
            \<not> (find (tx_guard (now_select clk) (topup_id tp)) (topups db) = None
               \<or> length (filter (tx_guard (now_update clk) (topup_id tp)) (topups db)) \<noteq> 1
               \<or> length (filter (\<lambda>u. user_id u = userId tp) (users db)) \<noteq> 1))
       \<and> (success r \<longrightarrow>
            coins r = Some (email_coins parseFloat (amountString p))
          \<and> (\<exists>pre t post.
                 topups db = pre @ t # post \<and> topup_id t = topup_id tp \<and> status t = ''PENDING''
               \<and> topups db' =
                   pre @ t\<lparr>status := ''CONFIRMED'',
                            amount_coins := Some (email_coins parseFloat (amountString p))\<rparr> # post)
          \<and> (\<exists>upre u upost.
                 users db = upre @ u # upost \<and> user_id u = userId tp
               \<and> users db' =
                   upre @ u\<lparr>balance_coins :=
                              js_add (balance_coins u) (email_coins parseFloat (amountString p))\<rparr>
                     # upost
               \<and> (\<forall>b k. balance_coins u = Fin (of_int b)
                        \<and> email_coins parseFloat (amountString p) = Fin (of_int k)
                        \<and> \<bar>b\<bar> < 2 ^ 53 \<and> \<bar>k\<bar> < 2 ^ 53 \<and> \<bar>b + k\<bar> < 2 ^ 53
                      \<longrightarrow> users db' = upre @ u\<lparr>balance_coins := Fin (of_int (b + k))\<rparr> # upost)))
       \<and> (\<not> success r \<longrightarrow>
            topups db' = topups db \<and> users db' = users db
          \<and> (\<exists>e. logPayment_calls db' = logPayment_calls db @ [e]
                 \<and> decision e = ''ERROR''
                 \<and> email_uid e = Some (p_email_uid p)
                 \<and> matched_topup_id e = Some (topup_id tp))
          \<and> (Some (p_email_uid p) \<notin> set (map email_uid (payment_logs db)) \<longrightarrow>
                map decision (payment_logs db') = map decision (payment_logs db) @ [''ERROR'']))"
proof -
  let ?c = "email_coins parseFloat (amountString p)"
  let ?mr = "findMatchingTopupByPhrase db (now_active clk) (codeCandidate p)"
  from reach have pre: "\<not> existingLog db (p_email_uid p)" "\<not> isNaN ?c" "\<not> js_le_zero ?c"
      "m_topup ?mr = Some tp" "status tp = ''PENDING''" "\<not> now_check clk > expiresAt tp"
      "emailDate p = None \<or> \<not> the (emailDate p) > expiresAt tp + 300000"
    by (simp_all add: reaches_transaction_def)
  from call pre have m: "confirm_matched p clk ?c tp (matchedPhrase ?mr) db = (r, db')"
    by (cases rule: confirm_cases) auto
  from m show ?thesis
  proof (cases rule: confirm_matched_cases)
    case status
    with pre show ?thesis by simp
  next
    case expired
    with pre show ?thesis by simp
  next
    case future
    with pre show ?thesis by simp
  next
    case (commit d)
    from credit_commit [OF commit(4)] obtain pre' t post upre u upost where
      f: "topups db = pre' @ t # post" "tx_guard (now_update clk) (topup_id tp) t"
         "topups d = pre' @ t\<lparr>status := ''CONFIRMED'', amount_coins := Some ?c\<rparr> # post"
         "users db = upre @ u # upost" "user_id u = userId tp"
         "users d = upre @ u\<lparr>balance_coins := js_add (balance_coins u) ?c\<rparr> # upost"
      by blast
    have s: "success r" "coins r = Some ?c"
      by (simp_all add: commit(5))
    have nothrow: "\<not> (\<exists>msg. credit_transaction clk tp ?c db = Inl msg)"
      by (simp add: commit(4))
    have a: "\<exists>pre t post.
                 topups db = pre @ t # post \<and> topup_id t = topup_id tp \<and> status t = ''PENDING''
               \<and> topups db' = pre @ t\<lparr>status := ''CONFIRMED'', amount_coins := Some ?c\<rparr> # post"
      using f(1-3) by (intro exI [of _ pre'] exI [of _ t] exI [of _ post])
        (simp add: commit(6) tx_guard_def pending_unexpired_def)
    have ud: "users db' = upre @ u\<lparr>balance_coins := js_add (balance_coins u) ?c\<rparr> # upost"
      using f(6) by (simp add: commit(6))
    have exact: "users db' = upre @ u\<lparr>balance_coins := Fin (of_int (b + k))\<rparr> # upost"
      if h: "balance_coins u = Fin (of_int b) \<and> ?c = Fin (of_int k)
               \<and> \<bar>b\<bar> < 2 ^ 53 \<and> \<bar>k\<bar> < 2 ^ 53 \<and> \<bar>b + k\<bar> < 2 ^ 53" for b k
    proof -
      from h have "js_add (Fin (of_int b)) (Fin (of_int k)) = Fin (of_int (b + k))"
        by (intro js_add_int) simp_all
      with h show ?thesis
        unfolding ud by simp
    qed
    have b: "\<exists>upre u upost.
                 users db = upre @ u # upost \<and> user_id u = userId tp
               \<and> users db' = upre @ u\<lparr>balance_coins := js_add (balance_coins u) ?c\<rparr> # upost
               \<and> (\<forall>b k. balance_coins u = Fin (of_int b) \<and> ?c = Fin (of_int k)
                        \<and> \<bar>b\<bar> < 2 ^ 53 \<and> \<bar>k\<bar> < 2 ^ 53 \<and> \<bar>b + k\<bar> < 2 ^ 53
                      \<longrightarrow> users db' = upre @ u\<lparr>balance_coins := Fin (of_int (b + k))\<rparr> # upost)"
      using f(4,5) ud exact
      by (intro exI [of _ upre] exI [of _ u] exI [of _ upost] conjI allI impI)
    from s a b nothrow show ?thesis
      unfolding credit_throw_iff by blast
  next
    case (rollback msg)
    have s: "\<not> success r"
      by (simp add: rollback(5))
    have throw: "\<exists>msg. credit_transaction clk tp ?c db = Inl msg"
      using rollback(4) by blast
    have a: "topups db' = topups db" "users db' = users db"
      by (simp_all add: rollback(6))
    have b: "\<exists>e. logPayment_calls db' = logPayment_calls db @ [e]
                 \<and> decision e = ''ERROR''
                 \<and> email_uid e = Some (p_email_uid p)
                 \<and> matched_topup_id e = Some (topup_id tp)"
      unfolding rollback(6) by (rule exI [of _ "confirmer_log p (matchedPhrase ?mr) (Some (topup_id tp)) ''ERROR''
                (''Database transaction failed: '' @ msg)"]) simp
    have c: "Some (p_email_uid p) \<notin> set (map email_uid (payment_logs db)) \<longrightarrow>
                map decision (payment_logs db') = map decision (payment_logs db) @ [''ERROR'']"
      unfolding rollback(6) using logPayment_stored [of "confirmer_log p (matchedPhrase ?mr) (Some (topup_id tp)) ''ERROR''
                (''Database transaction failed: '' @ msg)" db] by simp
    from s a b c throw show ?thesis
      unfolding credit_throw_iff by blast
  qed
qed

theorem confirm_transaction_atomic_witness:
  "reaches_transaction parseFloat_decimal ex_params (at_time 1500000) ex_db ex_topup
   \<and> success (fst (confirmTopupFromEmail parseFloat_decimal ex_params (at_time 1500000) ex_db))
   \<and> coins (fst (confirmTopupFromEmail parseFloat_decimal ex_params (at_time 1500000) ex_db))
       = Some (Fin 25)
   \<and> users ex_db = [\<lparr>user_id = 7, balance_coins = Fin 10\<rparr>]
   \<and> users (snd (confirmTopupFromEmail parseFloat_decimal ex_params (at_time 1500000) ex_db))
       = [\<lparr>user_id = 7, balance_coins = Fin 35\<rparr>]"
proof -
  let ?call = "confirmTopupFromEmail parseFloat_decimal ex_params (at_time 1500000) ex_db"
  have reach: "reaches_transaction parseFloat_decimal ex_params (at_time 1500000) ex_db ex_topup"
    by code_simp
  have ok: "\<not> (find (tx_guard (now_select (at_time 1500000)) (topup_id ex_topup)) (topups ex_db) = None
               \<or> length (filter (tx_guard (now_update (at_time 1500000)) (topup_id ex_topup)) (topups ex_db)) \<noteq> 1
               \<or> length (filter (\<lambda>u. user_id u = userId ex_topup) (users ex_db)) \<noteq> 1)"
    by code_simp
  have c: "email_coins parseFloat_decimal (amountString ex_params) = Fin (of_int 25)"
    by code_simp
  have us: "users ex_db = [\<lparr>user_id = 7, balance_coins = Fin (of_int 10)\<rparr>]"
    by (simp add: ex_db_def empty_db_def)
  note inst = confirm_transaction_atomic
    [where parseFloat = parseFloat_decimal and p = ex_params and clk = "at_time 1500000"
       and db = ex_db and tp = ex_topup, OF surjective_pairing reach]
  from inst ok have s: "success (fst ?call)"
    by blast
  with inst have co: "coins (fst ?call) = Some (email_coins parseFloat_decimal (amountString ex_params))"
    by blast
  from inst s obtain upre u upost where
    split: "users ex_db = upre @ u # upost"
    and exact: "\<forall>b k. balance_coins u = Fin (of_int b)
                  \<and> email_coins parseFloat_decimal (amountString ex_params) = Fin (of_int k)
                  \<and> \<bar>b\<bar> < 2 ^ 53 \<and> \<bar>k\<bar> < 2 ^ 53 \<and> \<bar>b + k\<bar> < 2 ^ 53
                \<longrightarrow> users (snd ?call) = upre @ u\<lparr>balance_coins := Fin (of_int (b + k))\<rparr> # upost"
    by blast
  from split us have parts: "upre = []" "u = \<lparr>user_id = 7, balance_coins = Fin (of_int 10)\<rparr>" "upost = []"
    by (simp_all add: Cons_eq_append_conv)
  from exact [rule_format, of 10 25] c have "users (snd ?call) = [\<lparr>user_id = 7, balance_coins = Fin 35\<rparr>]"
    unfolding parts by simp
  with reach s co c us show ?thesis
    by simp
qed

text \<open>
  C1 as stated fails beyond 2^53, where the floating-point sum is rounded. A balance of
  9007199254740992 (2^53) credited 25 coins becomes 9007199254741016: it grows by 24.
  And a balance of 10 credited 10^21 coins (the amount "1e21") becomes 10^21.
\<close>

theorem confirm_transaction_rounding_counterexample:
  "success (fst (confirmTopupFromEmail parseFloat_decimal ex_params (at_time 1500000)
                   (ex_db\<lparr>users := [\<lparr>user_id = 7, balance_coins = Fin 9007199254740992\<rparr>]\<rparr>)))
   \<and> coins (fst (confirmTopupFromEmail parseFloat_decimal ex_params (at_time 1500000)
                   (ex_db\<lparr>users := [\<lparr>user_id = 7, balance_coins = Fin 9007199254740992\<rparr>]\<rparr>)))
       = Some (Fin 25)
   \<and> users (snd (confirmTopupFromEmail parseFloat_decimal ex_params (at_time 1500000)
                   (ex_db\<lparr>users := [\<lparr>user_id = 7, balance_coins = Fin 9007199254740992\<rparr>]\<rparr>)))
       = [\<lparr>user_id = 7, balance_coins = Fin 9007199254741016\<rparr>]
   \<and> success (fst (confirmTopupFromEmail parseFloat_decimal
                     (ex_params\<lparr>amountString := Some ''1e21''\<rparr>) (at_time 1500000) ex_db))
   \<and> coins (fst (confirmTopupFromEmail parseFloat_decimal
                   (ex_params\<lparr>amountString := Some ''1e21''\<rparr>) (at_time 1500000) ex_db))
       = Some (Fin 1000000000000000000000)
   \<and> users ex_db = [\<lparr>user_id = 7, balance_coins = Fin 10\<rparr>]
   \<and> users (snd (confirmTopupFromEmail parseFloat_decimal
                    (ex_params\<lparr>amountString := Some ''1e21''\<rparr>) (at_time 1500000) ex_db))
       = [\<lparr>user_id = 7, balance_coins = Fin 1000000000000000000000\<rparr>]"
  by code_simp

subsection \<open>The phrase matcher and the status check\<close>

lemma m_topup_no_match [simp]: "m_topup (no_match r) = None" "m_reason (no_match r) = r"
  "matchedPhrase (no_match r) = None"
  by (simp_all add: no_match_def)

lemma set_getActiveTopups:
  "set (getActiveTopups db now) = {t \<in> set (topups db). pending_unexpired now t}"
  by (auto simp: getActiveTopups_def)

lemma findMatching_Some:
  assumes "m_topup (findMatchingTopupByPhrase db now c) = Some tp"
  shows "\<exists>cand. c = Some cand \<and> normalizePhrase cand \<noteq> []
          \<and> filter (\<lambda>t. normalizePhrase cand = normalizePhrase (code t)) (getActiveTopups db now) = [tp]
          \<and> matchedPhrase (findMatchingTopupByPhrase db now c) = Some (code tp)"
proof (cases c)
  case None
  with assms show ?thesis by (simp add: findMatchingTopupByPhrase_def)
next
  case (Some cand)
  with assms show ?thesis
    by (auto simp: findMatchingTopupByPhrase_def Let_def split: if_splits list.splits)
qed

lemma findMatching_pending:
  assumes "m_topup (findMatchingTopupByPhrase db now c) = Some tp"
  shows "tp \<in> set (topups db) \<and> pending_unexpired now tp"
proof -
  from findMatching_Some [OF assms] obtain cand where
    "filter (\<lambda>t. normalizePhrase cand = normalizePhrase (code t)) (getActiveTopups db now) = [tp]"
    by blast
  then have "tp \<in> set (filter (\<lambda>t. normalizePhrase cand = normalizePhrase (code t)) (getActiveTopups db now))"
    by simp
  then show ?thesis by (simp add: set_getActiveTopups)
qed

lemma findMatching_None_reason:
  assumes "m_topup (findMatchingTopupByPhrase db now c) = None"
  shows "\<exists>x. m_reason (findMatchingTopupByPhrase db now c) = CHR ''N'' # x
           \<or> m_reason (findMatchingTopupByPhrase db now c) = CHR ''C'' # x
           \<or> m_reason (findMatchingTopupByPhrase db now c) = CHR ''M'' # x"
  using assms
  by (auto simp: findMatchingTopupByPhrase_def Let_def split: if_splits list.splits)


lemma new_calls_logPayment [simp]:
  "drop (length (logPayment_calls db)) (logPayment_calls (logPayment e db)) = [e]"
  by simp

text \<open>
  C10. Whatever the inputs, a topup returned by \<^verbatim>\<open>findMatchingTopupByPhrase\<close> has status
  \<^verbatim>\<open>PENDING\<close>, and a call of \<^verbatim>\<open>confirmTopupFromEmail\<close> neither returns the reason
  "TopUp status is ..., expected PENDING" nor hands \<^verbatim>\<open>logPayment\<close> an entry with it.
\<close>

theorem status_rejection_unreachable:
  assumes "confirmTopupFromEmail parseFloat p clk db = (r, db')"
  shows "(\<forall>tp. m_topup (findMatchingTopupByPhrase db (now_active clk) (codeCandidate p)) = Some tp
              \<longrightarrow> status tp = ''PENDING'')
       \<and> take 16 (c_reason r) \<noteq> ''TopUp status is ''
       \<and> (\<forall>e\<in>set (drop (length (logPayment_calls db)) (logPayment_calls db')).
             \<forall>x. reason e \<noteq> Some (''TopUp status is '' @ x))"
proof -
  have pend: "\<forall>tp. m_topup (findMatchingTopupByPhrase db (now_active clk) (codeCandidate p)) = Some tp
              \<longrightarrow> status tp = ''PENDING''"
    using findMatching_pending by (auto simp: pending_unexpired_def)
  from assms have "take 16 (c_reason r) \<noteq> ''TopUp status is ''
       \<and> (\<forall>e\<in>set (drop (length (logPayment_calls db)) (logPayment_calls db')).
             \<forall>x. reason e \<noteq> Some (''TopUp status is '' @ x))"
  proof (cases rule: confirm_cases)
    case gate
    then show ?thesis by simp
  next
    case amount
    then show ?thesis by (simp add: invalid_amount_reason_def)
  next
    case (nomatch mr)
    from findMatching_None_reason [of db "now_active clk" "codeCandidate p"] nomatch(4,5)
    obtain x where "m_reason mr = CHR ''N'' # x \<or> m_reason mr = CHR ''C'' # x \<or> m_reason mr = CHR ''M'' # x"
      by auto
    with nomatch(6,7) show ?thesis by auto
  next
    case (matched mr tp)
    from matched(4,5) pend have st: "status tp = ''PENDING''" by simp
    from matched(6) show ?thesis
    proof (cases rule: confirm_matched_cases)
      case status
      with st show ?thesis by simp
    next
      case expired
      then show ?thesis by simp
    next
      case future
      then show ?thesis by simp
    next
      case (commit d)
      have "logPayment_calls d = logPayment_calls db"
        using credit_commit [OF commit(4)] by blast
      then have "drop (length (logPayment_calls db)) (logPayment_calls db')
                   = [accepted_log p (matchedPhrase mr) tp (email_coins parseFloat (amountString p))]"
        by (simp add: commit(6))
      then show ?thesis by (simp add: commit(5) accepted_log_def)
    next
      case (rollback msg)
      then show ?thesis by simp
    qed
  qed
  with pend show ?thesis by blast
qed

theorem status_rejection_unreachable_witness:
  "m_topup (findMatchingTopupByPhrase ex_db 1500000 (Some ''vine oak stone reef'')) = Some ex_topup
   \<and> status ex_topup = ''PENDING''
   \<and> take 16 (c_reason (fst (confirmTopupFromEmail parseFloat_decimal ex_params (at_time 1500000) ex_db)))
     \<noteq> ''TopUp status is ''"
proof -
  have m: "m_topup (findMatchingTopupByPhrase ex_db 1500000 (Some ''vine oak stone reef'')) = Some ex_topup"
    by code_simp
  have a: "now_active (at_time 1500000) = 1500000" "codeCandidate ex_params = Some ''vine oak stone reef''"
    by (simp_all add: at_time_def ex_params_def)
  from status_rejection_unreachable
    [where parseFloat = parseFloat_decimal and p = ex_params and clk = "at_time 1500000"
       and db = ex_db, OF surjective_pairing] m a
  show ?thesis by simp
qed

subsection \<open>Colliding phrases\<close>

lemma normalizePhrase_Nil [simp]: "normalizePhrase [] = []"
  by (simp add: normalizePhrase_def)

lemma length_filter_getActiveTopups:
  "length (filter P (getActiveTopups db now))
     = length (filter (\<lambda>t. pending_unexpired now t \<and> P t) (topups db))"
  by (simp add: getActiveTopups_def filter_sort)

lemma set_filter_getActiveTopups:
  "set (filter P (getActiveTopups db now))
     = {t \<in> set (topups db). pending_unexpired now t \<and> P t}"
  by (auto simp: set_getActiveTopups)

lemma findMatching_multi:
  assumes "normalizePhrase cand \<noteq> []"
    and "ms = filter (\<lambda>t. normalizePhrase cand = normalizePhrase (code t)) (getActiveTopups db now)"
    and "1 < length ms"
  shows "findMatchingTopupByPhrase db now (Some cand) =
           no_match (''Multiple active topup phrases match candidate: ''
                       @ join '', '' (map (\<lambda>m. quoted (code m)) ms)
                       @ '' ('' @ show_nat (length ms) @ '' matches)'')"
proof -
  from assms(1) have c: "cand \<noteq> []" by auto
  from assms(3) obtain x y zs where ms: "ms = x # y # zs"
    by (cases ms; cases "tl ms") auto
  with assms(2) have a: "getActiveTopups db now \<noteq> []" by auto
  show ?thesis
    using assms(1) c a ms assms(2) [symmetric]
    by (simp add: findMatchingTopupByPhrase_def Let_def)
qed

lemma js_includes_prefix: "js_includes (pat @ x) pat"
proof (cases "pat @ x")
  case Nil
  then show ?thesis by simp
next
  case (Cons a l)
  have "take (length pat) (pat @ x) = pat" by simp
  with Cons have "take (length pat) (a # l) = pat" by simp
  with Cons show ?thesis by simp
qed

text \<open>
  C3, as the code has it. When more than one active topup's normalized phrase equals the
  normalized candidate, a call of \<^verbatim>\<open>confirmTopupFromEmail\<close> returns \<^verbatim>\<open>success=false\<close>
  and changes no topup and no balance. If moreover the call gets as far as the phrase match
  (no accepted log row for the message, a positive amount) and the normalized candidate is
  not empty, it hands \<^verbatim>\<open>logPayment\<close> one entry with decision \<^verbatim>\<open>REJECTED\<close> whose reason
  lists the stored phrase of every colliding topup.
\<close>

theorem ambiguous_match_rejected:
  assumes call: "confirmTopupFromEmail parseFloat p clk db = (r, db')"
    and cand: "codeCandidate p = Some cand"
    and multi: "1 < length (filter (\<lambda>t. pending_unexpired (now_active clk) t
                                      \<and> normalizePhrase (code t) = normalizePhrase cand) (topups db))"
  shows "\<not> success r \<and> topups db' = topups db \<and> users db' = users db
       \<and> (\<not> existingLog db (p_email_uid p)
            \<and> \<not> isNaN (email_coins parseFloat (amountString p))
            \<and> \<not> js_le_zero (email_coins parseFloat (amountString p))
            \<and> normalizePhrase cand \<noteq> [] \<longrightarrow>
            (\<exists>e ms. logPayment_calls db' = logPayment_calls db @ [e]
                  \<and> decision e = ''REJECTED''
                  \<and> set ms = {t \<in> set (topups db). pending_unexpired (now_active clk) t
                                   \<and> normalizePhrase (code t) = normalizePhrase cand}
                  \<and> reason e =
                      Some (''Multiple active topup phrases match candidate: ''
                              @ join '', '' (map (\<lambda>m. quoted (code m)) ms)
                              @ '' ('' @ show_nat (length ms) @ '' matches)''
                              @ '' (source: '' @ code_source p @ '')'')))"
proof -
  let ?P = "\<lambda>t. normalizePhrase cand = normalizePhrase (code t)"
  define ms where "ms = filter ?P (getActiveTopups db (now_active clk))"
  have len: "1 < length ms"
    using multi unfolding ms_def length_filter_getActiveTopups
    by (simp add: eq_commute [of "normalizePhrase cand"])
  have setms: "set ms = {t \<in> set (topups db). pending_unexpired (now_active clk) t
                                   \<and> normalizePhrase (code t) = normalizePhrase cand}"
    unfolding ms_def set_filter_getActiveTopups by auto
  from call show ?thesis
  proof (cases rule: confirm_cases)
    case gate
    then show ?thesis by simp
  next
    case amount
    then show ?thesis by auto
  next
    case (nomatch mr)
    have base: "\<not> success r \<and> topups db' = topups db \<and> users db' = users db"
      by (simp add: nomatch(6,7))
    have "\<exists>e ms. logPayment_calls db' = logPayment_calls db @ [e]
                  \<and> decision e = ''REJECTED''
                  \<and> set ms = {t \<in> set (topups db). pending_unexpired (now_active clk) t
                                   \<and> normalizePhrase (code t) = normalizePhrase cand}
                  \<and> reason e =
                      Some (''Multiple active topup phrases match candidate: ''
                              @ join '', '' (map (\<lambda>m. quoted (code m)) ms)
                              @ '' ('' @ show_nat (length ms) @ '' matches)''
                              @ '' (source: '' @ code_source p @ '')'')"
      if ne: "normalizePhrase cand \<noteq> []"
    proof -
      let ?R = "''Multiple active topup phrases match candidate: ''
                  @ join '', '' (map (\<lambda>m. quoted (code m)) ms)
                  @ '' ('' @ show_nat (length ms) @ '' matches)''"
      have mr: "mr = no_match ?R"
        unfolding nomatch(4) cand by (rule findMatching_multi [OF ne ms_def len])
      have split: "?R = ''Multiple'' @ ('' active topup phrases match candidate: ''
                  @ join '', '' (map (\<lambda>m. quoted (code m)) ms)
                  @ '' ('' @ show_nat (length ms) @ '' matches)'')"
        by simp
      have inc: "js_includes ?R ''Multiple''"
        unfolding split by (rule js_includes_prefix)
      have db': "db' = logPayment (confirmer_log p None None ''REJECTED'' ?R) db"
        unfolding nomatch(7) mr m_topup_no_match using inc by (simp only: if_True)
      show ?thesis
        by (intro exI [of _ "confirmer_log p None None ''REJECTED'' ?R"] exI [of _ ms])
           (simp add: db' setms)
    qed
    with base show ?thesis by blast
  next
    case (matched mr tp)
    from findMatching_Some [of db "now_active clk" "codeCandidate p" tp] matched(4,5) cand
    have "ms = [tp]" by (simp add: ms_def)
    with len show ?thesis by simp
  qed
qed

theorem ambiguous_match_rejected_witness:
  "\<not> success (fst (confirmTopupFromEmail parseFloat_decimal collide_params (at_time 5000) collide_db))
   \<and> map decision (logPayment_calls
         (snd (confirmTopupFromEmail parseFloat_decimal collide_params (at_time 5000) collide_db)))
       = [''REJECTED'']"
proof -
  have multi: "1 < length (filter (\<lambda>t. pending_unexpired (now_active (at_time 5000)) t
                                      \<and> normalizePhrase (code t) = normalizePhrase ''alpha bravo'')
                             (topups collide_db))"
    by code_simp
  have cand: "codeCandidate collide_params = Some ''alpha bravo''"
    by (simp add: collide_params_def)
  have pre: "\<not> existingLog collide_db (p_email_uid collide_params)"
    "\<not> isNaN (email_coins parseFloat_decimal (amountString collide_params))"
    "\<not> js_le_zero (email_coins parseFloat_decimal (amountString collide_params))"
    "normalizePhrase ''alpha bravo'' \<noteq> []"
    "logPayment_calls collide_db = []"
    by code_simp+
  from ambiguous_match_rejected
    [where parseFloat = parseFloat_decimal and p = collide_params and clk = "at_time 5000"
       and db = collide_db, OF surjective_pairing cand multi] pre
  show ?thesis by auto
qed

text \<open>
  C3 as stated fails where the call returns before the phrase match or the candidate is
  blank. With two colliding topups: an amount of 0 is rejected for the amount, with no
  phrase listed; a message that already has an accepted row gets no entry at all; and a
  blank candidate against two blank phrases is logged as \<^verbatim>\<open>IGNORED\<close>.
\<close>

theorem ambiguous_match_counterexample:
  "map decision (logPayment_calls (snd (confirmTopupFromEmail parseFloat_decimal
       (collide_params\<lparr>amountString := Some ''0''\<rparr>) (at_time 5000) collide_db))) = [''REJECTED'']
   \<and> c_reason (fst (confirmTopupFromEmail parseFloat_decimal
       (collide_params\<lparr>amountString := Some ''0''\<rparr>) (at_time 5000) collide_db))
       = invalid_amount_reason (Some ''0'')
   \<and> logPayment_calls (snd (confirmTopupFromEmail parseFloat_decimal collide_params (at_time 5000)
       (collide_db\<lparr>payment_logs := [accepted_log collide_params None ex_topup (Fin 40)]\<rparr>))) = []
   \<and> map decision (logPayment_calls (snd (confirmTopupFromEmail parseFloat_decimal
       (collide_params\<lparr>codeCandidate := Some '' ''\<rparr>) (at_time 5000)
       (collide_db\<lparr>topups := map (\<lambda>t. t\<lparr>code := replicate (topup_id t) CHR '' ''\<rparr>)
                                  (topups collide_db)\<rparr>)))) = [''IGNORED'']"
  by code_simp

subsection \<open>The credited amount\<close>

lemma confirm_success:
  assumes "confirmTopupFromEmail parseFloat p clk db = (r, db')" and "success r"
  obtains tp d where
    "\<not> existingLog db (p_email_uid p)"
    "m_topup (findMatchingTopupByPhrase db (now_active clk) (codeCandidate p)) = Some tp"
    "credit_transaction clk tp (email_coins parseFloat (amountString p)) db = Inr d"
    "coins r = Some (email_coins parseFloat (amountString p))"
    "db' = logPayment (accepted_log p
             (matchedPhrase (findMatchingTopupByPhrase db (now_active clk) (codeCandidate p)))
             tp (email_coins parseFloat (amountString p))) d"
    "\<not> isNaN (email_coins parseFloat (amountString p))"
    "\<not> js_le_zero (email_coins parseFloat (amountString p))"
  using assms(1)
proof (cases rule: confirm_cases)
  case gate
  with assms(2) show ?thesis by simp
next
  case amount
  with assms(2) show ?thesis by simp
next
  case (nomatch mr)
  with assms(2) show ?thesis by simp
next
  case (matched mr tp)
  from matched(6) show ?thesis
  proof (cases rule: confirm_matched_cases)
    case status
    with assms(2) show ?thesis by simp
  next
    case expired
    with assms(2) show ?thesis by simp
  next
    case future
    with assms(2) show ?thesis by simp
  next
    case (commit d)
    from matched(1-5) commit(4-6) show ?thesis by (intro that [of tp d]) simp_all
  next
    case (rollback msg)
    with assms(2) show ?thesis by simp
  qed
qed

text \<open>
  C4, as the code has it. The credited amount is \<^verbatim>\<open>Math.floor(parseFloat(amountString))\<close>
  and nothing else: a successful call returns it as \<^verbatim>\<open>coins\<close>, stores it in the confirmed
  row and adds it to one balance, whatever the topup row held. An amount that reads as a
  number from 25 up to, but not including, 26 (as "25.9" does) credits 25. If the floor is
  \<^verbatim>\<open>NaN\<close> or not positive (a missing amount reads as "0"), the call returns
  \<^verbatim>\<open>success=false\<close> and changes no topup and no balance; and unless the message already has
  an accepted log row, it hands \<^verbatim>\<open>logPayment\<close> one entry with decision \<^verbatim>\<open>REJECTED\<close>.
\<close>

theorem credited_amount_from_email:
  assumes call: "confirmTopupFromEmail parseFloat p clk db = (r, db')"
  shows "(success r \<longrightarrow>
            coins r = Some (email_coins parseFloat (amountString p))
          \<and> (\<exists>pre t post.
                 topups db = pre @ t # post
               \<and> topups db' =
                   pre @ t\<lparr>status := ''CONFIRMED'',
                            amount_coins := Some (email_coins parseFloat (amountString p))\<rparr> # post)
          \<and> (\<exists>upre u upost.
                 users db = upre @ u # upost
               \<and> users db' =
                   upre @ u\<lparr>balance_coins :=
                              js_add (balance_coins u) (email_coins parseFloat (amountString p))\<rparr>
                     # upost))
       \<and> (\<forall>q. amountString p = Some ''25.9'' \<and> parseFloat ''25.9'' = Fin q \<and> 25 \<le> q \<and> q < 26
              \<longrightarrow> email_coins parseFloat (amountString p) = Fin 25)
       \<and> (amountString p \<in> {None, Some []} \<and> parseFloat ''0'' = Fin 0
              \<longrightarrow> js_le_zero (email_coins parseFloat (amountString p)))
       \<and> (isNaN (email_coins parseFloat (amountString p))
            \<or> js_le_zero (email_coins parseFloat (amountString p)) \<longrightarrow>
            \<not> success r \<and> topups db' = topups db \<and> users db' = users db
          \<and> (\<not> existingLog db (p_email_uid p) \<longrightarrow>
               (\<exists>e. logPayment_calls db' = logPayment_calls db @ [e]
                    \<and> decision e = ''REJECTED''
                    \<and> reason e = Some (invalid_amount_reason (amountString p)
                                         @ '' (source: '' @ code_source p @ '')''))))"
proof -
  let ?c = "email_coins parseFloat (amountString p)"
  have A: "coins r = Some ?c
          \<and> (\<exists>pre t post.
                 topups db = pre @ t # post
               \<and> topups db' = pre @ t\<lparr>status := ''CONFIRMED'', amount_coins := Some ?c\<rparr> # post)
          \<and> (\<exists>upre u upost.
                 users db = upre @ u # upost
               \<and> users db' = upre @ u\<lparr>balance_coins := js_add (balance_coins u) ?c\<rparr> # upost)"
    if s: "success r"
  proof -
    from call s obtain tp d where
      tx: "credit_transaction clk tp ?c db = Inr d" and c: "coins r = Some ?c"
      and d: "db' = logPayment (accepted_log p
             (matchedPhrase (findMatchingTopupByPhrase db (now_active clk) (codeCandidate p))) tp ?c) d"
      by (rule confirm_success)
    from credit_commit [OF tx] obtain pre t post upre u upost where
      "topups db = pre @ t # post"
      "topups d = pre @ t\<lparr>status := ''CONFIRMED'', amount_coins := Some ?c\<rparr> # post"
      "users db = upre @ u # upost"
      "users d = upre @ u\<lparr>balance_coins := js_add (balance_coins u) ?c\<rparr> # upost"
      by blast
    with c d show ?thesis by auto
  qed
  have B: "\<forall>q. amountString p = Some ''25.9'' \<and> parseFloat ''25.9'' = Fin q \<and> 25 \<le> q \<and> q < 26
              \<longrightarrow> ?c = Fin 25"
  proof (intro allI impI)
    fix q :: rat
    assume h: "amountString p = Some ''25.9'' \<and> parseFloat ''25.9'' = Fin q \<and> 25 \<le> q \<and> q < 26"
    then have "\<lfloor>q\<rfloor> = 25" by linarith
    with h show "?c = Fin 25" by (simp add: email_coins_def js_or_def)
  qed
  have C: "amountString p \<in> {None, Some []} \<and> parseFloat ''0'' = Fin 0 \<longrightarrow> js_le_zero ?c"
    by (auto simp: email_coins_def js_or_def)
  have D: "\<not> success r \<and> topups db' = topups db \<and> users db' = users db
          \<and> (\<not> existingLog db (p_email_uid p) \<longrightarrow>
               (\<exists>e. logPayment_calls db' = logPayment_calls db @ [e]
                    \<and> decision e = ''REJECTED''
                    \<and> reason e = Some (invalid_amount_reason (amountString p)
                                         @ '' (source: '' @ code_source p @ '')'')))"
    if bad: "isNaN ?c \<or> js_le_zero ?c"
    using call
  proof (cases rule: confirm_cases)
    case gate
    then show ?thesis by simp
  next
    case amount
    then show ?thesis by simp
  next
    case (nomatch mr)
    with bad show ?thesis by simp
  next
    case (matched mr tp)
    with bad show ?thesis by simp
  qed
  from A B C D show ?thesis by blast
qed

theorem credited_amount_from_email_witness:
  "coins (fst (confirmTopupFromEmail parseFloat_decimal ex_params (at_time 1500000) ex_db))
     = Some (Fin 25)
   \<and> users (snd (confirmTopupFromEmail parseFloat_decimal ex_params (at_time 1500000) ex_db))
     = [\<lparr>user_id = 7, balance_coins = Fin 35\<rparr>]"
proof -
  have s: "success (fst (confirmTopupFromEmail parseFloat_decimal ex_params (at_time 1500000) ex_db))"
    by code_simp
  have c: "email_coins parseFloat_decimal (amountString ex_params) = Fin 25"
    by code_simp
  have u: "users (snd (confirmTopupFromEmail parseFloat_decimal ex_params (at_time 1500000) ex_db))
     = [\<lparr>user_id = 7, balance_coins = Fin 35\<rparr>]"
    by code_simp
  from credited_amount_from_email
    [where parseFloat = parseFloat_decimal and p = ex_params and clk = "at_time 1500000"
       and db = ex_db, OF surjective_pairing] s c u
  show ?thesis by simp
qed

text \<open>
  C4 as stated fails when the message already has an accepted log row: with the amount
  "abc" the call returns "already processed" and hands nothing to \<^verbatim>\<open>logPayment\<close>.
\<close>

theorem credited_amount_gate_counterexample:
  "fst (confirmTopupFromEmail parseFloat_decimal (ex_params\<lparr>amountString := Some ''abc''\<rparr>)
         (at_time 1500000)
         (ex_db\<lparr>payment_logs := [accepted_log ex_params None ex_topup (Fin 25)]\<rparr>))
     = failure ''Email UID 1005 already processed (idempotency check)''
   \<and> logPayment_calls
        (snd (confirmTopupFromEmail parseFloat_decimal (ex_params\<lparr>amountString := Some ''abc''\<rparr>)
               (at_time 1500000)
               (ex_db\<lparr>payment_logs := [accepted_log ex_params None ex_topup (Fin 25)]\<rparr>))) = []"
  by code_simp

subsection \<open>Idempotence\<close>








subsection \<open>The scan pass\<close>

lemma valid_validatePayment:
  "valid (fst (validatePayment parseFloat pd emailBody emailSubject emailUid db)) \<longleftrightarrow>
     rules_1_to_4 parseFloat pd
     \<and> fst (extractPassphraseFromSafeZones pd emailBody emailSubject) \<notin> {None, Some []}"
  using validatePayment_result [OF surjective_pairing] by blast

lemma mail_markers_validatePayment:
  "mail_markers (snd (validatePayment parseFloat pd emailBody emailSubject emailUid db))
     = mail_markers db"
  by (simp add: validatePayment_def Let_def split: prod.splits)

lemma mail_markers_confirm:
  "mail_markers (snd (confirmTopupFromEmail parseFloat p clk db)) = mail_markers db"
proof -
  obtain r db' where c: "confirmTopupFromEmail parseFloat p clk db = (r, db')"
    by fastforce
  from c have "mail_markers db' = mail_markers db"
  proof (cases rule: confirm_cases)
    case (matched mr tp)
    from matched(6) show ?thesis
    proof (cases rule: confirm_matched_cases)
      case (commit d)
      with credit_commit [OF commit(4)] show ?thesis by auto
    qed simp_all
  qed simp_all
  with c show ?thesis by simp
qed

lemma set_markers_markProcessed [simp]:
  "set (mail_markers (markProcessed mb u db)) = insert (markerKey mb u) (set (mail_markers db))"
  by (auto simp: markProcessed_def)


lemma mark_and_advance_eq:
  "mark_and_advance mb u (db, st) = (db', st') \<Longrightarrow>
     highestProcessedUid st' = max (highestProcessedUid st) u
     \<and> set (mail_markers db) \<subseteq> set (mail_markers db')"
  by (auto simp: mark_and_advance_def split: if_splits)

lemma process_message_step:
  assumes "process_message parseFloat mb s m (db, st) = (db', st')"
  shows "set (mail_markers db) \<subseteq> set (mail_markers db')
       \<and> (\<forall>u. uidNum m = Some u \<and> s \<le> u
               \<and> (markerExists db mb (show_int u) \<or> runs_to_end parseFloat m)
             \<longrightarrow> highestProcessedUid st' = max (highestProcessedUid st) u)"
proof (cases "uidNum m")
  case None
  with assms show ?thesis by (simp add: process_message_def)
next
  case (Some u)
  show ?thesis
  proof (cases "u < s")
    case True
    with assms Some show ?thesis by (simp add: process_message_def)
  next
    case ge: False
    show ?thesis
    proof (cases "markerExists db mb (show_int u)")
      case True
      with assms Some ge show ?thesis by (auto simp: process_message_def)
    next
      case nm: False
      show ?thesis
      proof (cases "fetched m")
        case (FetchThrows msg)
        with assms Some ge nm have
          "mark_and_advance mb u
             (logPayment (poller_log (Some (show_int u)) ''ERROR''
                (''Email processing error: '' @ msg) (Some ''Unknown'') None) db, st) = (db', st')"
          by (simp add: process_message_def)
        from mark_and_advance_eq [OF this] Some show ?thesis by simp
      next
        case (NoSource subj)
        with assms Some ge nm show ?thesis
          by (auto simp: process_message_def runs_to_end_def)
      next
        case (Source subj body dt parsed)
        show ?thesis
        proof (cases parsed)
          case (ParserThrows msg)
          with assms Some ge nm Source show ?thesis
            by (auto simp: process_message_def runs_to_end_def)
        next
          case (Parsed pd)
          obtain v db1 where vp: "validatePayment parseFloat pd body subj (show_int u) db = (v, db1)"
            by fastforce
          have v: "valid v \<longleftrightarrow> runs_to_end parseFloat m"
            using valid_validatePayment [of parseFloat pd body subj "show_int u" db]
            by (simp add: vp runs_to_end_def Source Parsed)
          have m1: "mail_markers db1 = mail_markers db"
            using mail_markers_validatePayment [of parseFloat pd body subj "show_int u" db]
            by (simp add: vp)
          show ?thesis
          proof (cases "valid v")
            case False
            with assms Some ge nm Source Parsed vp v m1 show ?thesis
              by (auto simp: process_message_def split: if_splits)
          next
            case True
            define p where "p = \<lparr>codeCandidate = v_codeCandidate v,
                                 code_source = (case v_code_source v of
                                                  None \<Rightarrow> ''unknown'' | Some src \<Rightarrow> src),
                                 amountString = amount pd,
                                 p_email_uid = show_int u,
                                 p_subject = subj,
                                 bodyPreview = take 200 body,
                                 emailDate = dt\<rparr>"
            obtain c db2 where cf: "confirmTopupFromEmail parseFloat p (msg_clock m) db1 = (c, db2)"
              by fastforce
            have m2: "mail_markers db2 = mail_markers db"
              using mail_markers_confirm [of parseFloat p "msg_clock m" db1] by (simp add: cf m1)
            define db3 where "db3 = (if flag_ok m then markProcessed mb (show_int u) db2 else db2)"
            define st1 where "st1 = st\<lparr>parsedCount := parsedCount st + 1\<rparr>"
            define st2 where "st2 = (if success c
                                      then st1\<lparr>processedCount := processedCount st1 + 1,
                                               confirmedCount := confirmedCount st1 + 1\<rparr>
                                      else st1\<lparr>rejectedCount := rejectedCount st1 + 1\<rparr>)"
            have ma: "mark_and_advance mb u (db3, st2) = (db', st')"
              using assms Some ge nm Source Parsed vp True cf
              by (auto simp: process_message_def p_def [symmetric] Let_def db3_def st2_def st1_def
                       split: if_splits)
            have sub: "set (mail_markers db2) \<subseteq> set (mail_markers db3)"
              by (auto simp: db3_def)
            have h: "highestProcessedUid st2 = highestProcessedUid st"
              by (simp add: st2_def st1_def)
            from mark_and_advance_eq [OF ma] m2 sub h Some show ?thesis
              by auto
          qed
        qed
      qed
    qed
  qed
qed

lemma Max_insert_max:
  "finite U \<Longrightarrow> Max (insert (max a b) U) = Max (insert a (insert b (U :: int set)))"
  by (cases "U = {}") (simp_all add: max.assoc)


lemma scan_highest:
  assumes "\<forall>m\<in>set ms. advances parseFloat mb s db0 m"
    and "set (mail_markers db0) \<subseteq> set (mail_markers db)"
    and "scan_messages parseFloat mb s ms (db, st) = (db', st')"
  shows "highestProcessedUid st'
           = Max (insert (highestProcessedUid st) ((\<lambda>m. the (uidNum m)) ` set ms))"
  using assms
proof (induction ms arbitrary: db st)
  case Nil
  then show ?case by (simp add: scan_messages_def)
next
  case (Cons m ms)
  obtain db1 st1 where step: "process_message parseFloat mb s m (db, st) = (db1, st1)"
    by fastforce
  from Cons.prems(1) obtain u where u: "uidNum m = Some u" "s \<le> u"
      "markerExists db0 mb (show_int u) \<or> runs_to_end parseFloat m"
    by (auto simp: advances_def split: option.splits)
  from u(3) Cons.prems(2) have "markerExists db mb (show_int u) \<or> runs_to_end parseFloat m"
    by (auto simp: markerExists_def)
  with process_message_step [OF step] u have
    sub: "set (mail_markers db) \<subseteq> set (mail_markers db1)"
    and h: "highestProcessedUid st1 = max (highestProcessedUid st) u"
    by auto
  from Cons.prems(3) step have rest: "scan_messages parseFloat mb s ms (db1, st1) = (db', st')"
    by (simp add: scan_messages_def)
  from Cons.prems(1) have all: "\<forall>m\<in>set ms. advances parseFloat mb s db0 m" by simp
  from Cons.prems(2) sub have "set (mail_markers db0) \<subseteq> set (mail_markers db1)" by blast
  from Cons.IH [OF all this rest] h
  have "highestProcessedUid st'
          = Max (insert (max (highestProcessedUid st) u) ((\<lambda>m. the (uidNum m)) ` set ms))"
    by simp
  also have "\<dots> = Max (insert (highestProcessedUid st)
                        (insert u ((\<lambda>m. the (uidNum m)) ` set ms)))"
    by (rule Max_insert_max) simp
  also have "insert u ((\<lambda>m. the (uidNum m)) ` set ms) = (\<lambda>m. the (uidNum m)) ` set (m # ms)"
    using u(1) by simp
  finally show ?case .
qed



lemma scan_pass_highest:
  assumes io: "opened io = Some (mailboxName, uidNext)" "found io = Inr ms" "ms \<noteq> []"
    and armed: "min_armed_uidnext (save_first_uidnext uidNext db) = Some startUid"
    and all: "\<forall>m\<in>set ms. advances parseFloat mailboxName startUid (save_first_uidnext uidNext db) m"
    and scan: "scan_messages parseFloat mailboxName startUid ms (save_first_uidnext uidNext db, \<lparr>processedCount = 0, parsedCount = 0, confirmedCount = 0, rejectedCount = 0,
               highestProcessedUid = startUid - 1\<rparr>) = (db1, st)"
  shows "highestProcessedUid st = Max ((\<lambda>m. the (uidNum m)) ` set ms) \<and> startUid \<le> Max ((\<lambda>m. the (uidNum m)) ` set ms)"
proof -
  let ?U = "(\<lambda>m. the (uidNum m)) ` set ms"
  from scan_highest [OF all subset_refl scan]
  have h: "highestProcessedUid st = Max (insert (startUid - 1) ?U)"
    by (simp only: scan_state.select_convs)
  have fin: "finite ?U" by (rule finite_imageI) (rule finite_set)
  from io(3) obtain m0 where m0: "m0 \<in> set ms" by (cases ms) auto
  have ne: "?U \<noteq> {}" using io(3) by simp
  from all m0 have "advances parseFloat mailboxName startUid (save_first_uidnext uidNext db) m0"
    by blast
  then have "startUid \<le> the (uidNum m0)"
    by (cases "uidNum m0") (simp_all add: advances_def)
  moreover from m0 have "the (uidNum m0) \<in> ?U" by (rule imageI)
  ultimately obtain x where x: "x \<in> ?U" "startUid \<le> x" by blast
  from Max_ge [OF fin x(1)] x(2) have big: "startUid \<le> Max ?U" by linarith
  have "Max (insert (startUid - 1) ?U) = max (startUid - 1) (Max ?U)"
    using fin ne by (rule Max_insert)
  with big h have h': "highestProcessedUid st = Max ?U" by linarith
  from h' big show ?thesis by blast
qed


text \<open>
  C8, as the code has it. Take a pass that runs the loop over a non-empty search result in
  which every message, by its uid and what the mailbox and the parser do for it, advances
  \<^verbatim>\<open>highestProcessedUid\<close> (see \<open>advances\<close>). The pass returns, and the stored
  \<^verbatim>\<open>gmail_start_uid\<close> is one past the highest uid of the search result, which is beyond
  the start uid of the pass, the least \<^verbatim>\<open>armed_uidnext\<close> of the pending topups. The
  value is stored without a look at the value stored before.
\<close>

theorem watermark_after_pass:
  assumes io: "opened io = Some (mailboxName, uidNext)" "found io = Inr ms" "ms \<noteq> []"
    and armed: "min_armed_uidnext (save_first_uidnext uidNext db) = Some startUid"
    and all: "\<forall>m\<in>set ms. advances parseFloat mailboxName startUid (save_first_uidnext uidNext db) m"
  shows "fst (fst (processEmails parseFloat io db)) = Returned
       \<and> gmail_start_uid (snd (processEmails parseFloat io db))
           = Some (show_int (Max ((\<lambda>m. the (uidNum m)) ` set ms) + 1))
       \<and> startUid < Max ((\<lambda>m. the (uidNum m)) ` set ms) + 1"
proof -
  let ?db0 = "save_first_uidnext uidNext db"
  let ?st0 = "\<lparr>processedCount = 0, parsedCount = 0, confirmedCount = 0, rejectedCount = 0,
               highestProcessedUid = startUid - 1\<rparr>"
  obtain db1 st where scan: "scan_messages parseFloat mailboxName startUid ms (?db0, ?st0) = (db1, st)"
    by fastforce
  from scan_pass_highest [OF io armed all scan]
  have h: "highestProcessedUid st = Max ((\<lambda>m. the (uidNum m)) ` set ms)"
    and big: "startUid \<le> highestProcessedUid st"
    by simp_all
  have "processEmails parseFloat io db =
          ((Returned, Some st),
           db1\<lparr>gmail_start_uid := Some (show_int (highestProcessedUid st + 1))\<rparr>)"
    unfolding processEmails_def io(1) io(2) Let_def
    by (simp only: option.case prod.case sum.case armed scan io(3) big if_True if_False)
  with h big show ?thesis by simp
qed


theorem watermark_after_pass_witness:
  "gmail_start_uid
     (snd (processEmails parseFloat_decimal (inbox [other_mail 1000 False, other_mail 1010 True]) ex_db))
     = Some (show_int (Max ((\<lambda>m. the (uidNum m)) ` set [other_mail 1000 False, other_mail 1010 True]) + 1))
   \<and> show_int (Max ((\<lambda>m. the (uidNum m)) ` set [other_mail 1000 False, other_mail 1010 True]) + 1)
     = ''1011''"
proof -
  have io: "opened (inbox [other_mail 1000 False, other_mail 1010 True]) = Some (''INBOX'', None)"
    "found (inbox [other_mail 1000 False, other_mail 1010 True])
       = Inr [other_mail 1000 False, other_mail 1010 True]"
    "[other_mail 1000 False, other_mail 1010 True] \<noteq> []"
    by (simp_all add: inbox_def)
  have armed: "min_armed_uidnext (save_first_uidnext None ex_db) = Some 1000"
    by code_simp
  have all: "\<forall>m\<in>set [other_mail 1000 False, other_mail 1010 True].
               advances parseFloat_decimal ''INBOX'' 1000 (save_first_uidnext None ex_db) m"
    by code_simp
  have mx: "Max ((\<lambda>m. the (uidNum m)) ` set [other_mail 1000 False, other_mail 1010 True]) = 1010"
    by code_simp
  have sh: "show_int 1011 = ''1011''"
    by code_simp
  from watermark_after_pass [OF io armed all] mx sh show ?thesis
    by simp
qed

text \<open>
  C8 as stated fails in its second half. A first pass visits the messages 1000 and 1010
  and stores 1011; the flag of message 1000 could not be set, so a second pass finds it
  alone, meets its marker, and stores 1001.
\<close>

theorem watermark_decreases_counterexample:
  "gmail_start_uid
     (snd (processEmails parseFloat_decimal (inbox [other_mail 1000 False, other_mail 1010 True]) ex_db))
     = Some ''1011''
   \<and> gmail_start_uid
        (snd (processEmails parseFloat_decimal (inbox [other_mail 1000 False])
           (snd (processEmails parseFloat_decimal
                  (inbox [other_mail 1000 False, other_mail 1010 True]) ex_db))))
     = Some ''1001''"
  by code_simp

text \<open>
  C5. The claim: after every per-message decision, an error included, the marker of the
  message is inserted, so that no message is parsed twice. In the code a message whose
  parser throws is logged with decision \<^verbatim>\<open>ERROR\<close> and the iteration ends with
  \<^verbatim>\<open>continue\<close>, before \<^verbatim>\<open>markProcessed\<close>: after the pass \<^verbatim>\<open>mail_markers\<close> is empty,
  and a second pass that finds the message again hands it to the parser again.
\<close>

theorem marker_skipped_on_parser_error:
  "mail_markers (snd (processEmails parseFloat_decimal (inbox [broken_mail 1005]) ex_db)) = []
   \<and> map decision (logPayment_calls
         (snd (processEmails parseFloat_decimal (inbox [broken_mail 1005]) ex_db))) = [''ERROR'']
   \<and> map decision (logPayment_calls
         (snd (processEmails parseFloat_decimal (inbox [broken_mail 1005])
                (snd (processEmails parseFloat_decimal (inbox [broken_mail 1005]) ex_db)))))
       = [''ERROR'', ''ERROR'']"
  by code_simp

end
